theory Spec2Isabelle
  imports Main "HOL-Library.Multiset"
begin

section \<open>Strings as the components use them\<close>

text \<open>
  A name typed into a form is modelled as a \<^typ>\<open>string\<close>: the sequence of its UTF-16 code
  units, each below 256 (the Latin-1 range, which holds ASCII). The character classes
  below are the ones the regular expressions of \<open>generateSlug\<close> name: \<open>a-z\<close>, \<open>0-9\<close>, the
  hyphen, and \<open>\s\<close>, which in this range is tab, line feed, vertical tab, form feed,
  carriage return, space and the no-break space U+00A0. \<open>String.prototype.trim\<close> removes
  the same white space from both ends. \<open>toLowerCase\<close> maps \<open>A-Z\<close> and the uppercase letters
  of Latin-1 (U+00C0 to U+00DE without the multiplication sign U+00D7) to the letter 32
  places further on, and leaves every other character of the range as it is.
\<close>

definition is_lower :: "char \<Rightarrow> bool" where
  "is_lower c = (c \<in> set ''abcdefghijklmnopqrstuvwxyz'')"

definition is_upper :: "char \<Rightarrow> bool" where
  "is_upper c = (c \<in> set ''ABCDEFGHIJKLMNOPQRSTUVWXYZ'')"

definition is_digit :: "char \<Rightarrow> bool" where
  "is_digit c = (c \<in> set ''0123456789'')"

definition is_space :: "char \<Rightarrow> bool" where
  "is_space c =
     (c \<in> set [CHR 0x09, CHR 0x0A, CHR 0x0B, CHR 0x0C, CHR 0x0D, CHR '' '', CHR 0xA0])"

definition is_hyphen :: "char \<Rightarrow> bool" where
  "is_hyphen c = (c = CHR ''-'')"

definition latin1_upper :: string where
  "latin1_upper =
     [CHR 0xC0, CHR 0xC1, CHR 0xC2, CHR 0xC3, CHR 0xC4, CHR 0xC5, CHR 0xC6, CHR 0xC7,
      CHR 0xC8, CHR 0xC9, CHR 0xCA, CHR 0xCB, CHR 0xCC, CHR 0xCD, CHR 0xCE, CHR 0xCF,
      CHR 0xD0, CHR 0xD1, CHR 0xD2, CHR 0xD3, CHR 0xD4, CHR 0xD5, CHR 0xD6,
      CHR 0xD8, CHR 0xD9, CHR 0xDA, CHR 0xDB, CHR 0xDC, CHR 0xDD, CHR 0xDE]"

definition latin1_lower :: string where
  "latin1_lower =
     [CHR 0xE0, CHR 0xE1, CHR 0xE2, CHR 0xE3, CHR 0xE4, CHR 0xE5, CHR 0xE6, CHR 0xE7,
      CHR 0xE8, CHR 0xE9, CHR 0xEA, CHR 0xEB, CHR 0xEC, CHR 0xED, CHR 0xEE, CHR 0xEF,
      CHR 0xF0, CHR 0xF1, CHR 0xF2, CHR 0xF3, CHR 0xF4, CHR 0xF5, CHR 0xF6,
      CHR 0xF8, CHR 0xF9, CHR 0xFA, CHR 0xFB, CHR 0xFC, CHR 0xFD, CHR 0xFE]"

definition toLowerCase_char :: "char \<Rightarrow> char" where
  "toLowerCase_char c =
     (case map_of (zip (''ABCDEFGHIJKLMNOPQRSTUVWXYZ'' @ latin1_upper)
                       (''abcdefghijklmnopqrstuvwxyz'' @ latin1_lower)) c of
        None \<Rightarrow> c
      | Some l \<Rightarrow> l)"

definition toLowerCase :: "string \<Rightarrow> string" where
  "toLowerCase s = map toLowerCase_char s"

definition trim :: "string \<Rightarrow> string" where
  "trim s = rev (dropWhile is_space (rev (dropWhile is_space s)))"

text \<open>
  \<open>s.replace(/X+/g, "-")\<close>: every maximal run of characters of the class \<open>X\<close> becomes the
  one character \<open>r\<close>; everything else is kept.
\<close>

function replace_runs :: "(char \<Rightarrow> bool) \<Rightarrow> char \<Rightarrow> string \<Rightarrow> string" where
  "replace_runs P r [] = []"
| "replace_runs P r (c # cs) =
     (if P c then r # replace_runs P r (dropWhile P cs) else c # replace_runs P r cs)"
  by pat_completeness auto
termination
  by (relation "measure (\<lambda>(P, r, s). length s)")
     (auto simp: le_imp_less_Suc length_dropWhile_le)

text \<open>The character class \<open>[a-z0-9\s-]\<close>; \<open>replace(/[^a-z0-9\s-]/g, "")\<close> keeps exactly these.\<close>

definition slug_class :: "char \<Rightarrow> bool" where
  "slug_class c = (is_lower c \<or> is_digit c \<or> is_space c \<or> is_hyphen c)"

text \<open>
  \<open>generateSlug\<close> of \<open>CreateCity.tsx\<close> and of \<open>CreateChannel.tsx\<close> (the two are the same
  text): \<open>toLowerCase\<close>, then the three \<open>replace\<close> calls in the source's order, then
  \<open>trim\<close>.
\<close>

definition generateSlug :: "string \<Rightarrow> string" where
  "generateSlug name =
     trim (replace_runs is_hyphen (CHR ''-'')
            (replace_runs is_space (CHR ''-'')
              (filter slug_class (toLowerCase name))))"

text \<open>Two hyphens next to each other somewhere in a string.\<close>

fun double_hyphen :: "string \<Rightarrow> bool" where
  "double_hyphen (a # b # cs) = ((is_hyphen a \<and> is_hyphen b) \<or> double_hyphen (b # cs))"
| "double_hyphen cs = False"

text \<open>
  The transformation as the specification words it: the same steps, and at the end the
  hyphens (not the white space) are removed from both ends.
\<close>

definition spec_slug :: "string \<Rightarrow> string" where
  "spec_slug name =
     rev (dropWhile is_hyphen (rev (dropWhile is_hyphen
       (replace_runs is_hyphen (CHR ''-'')
         (replace_runs is_space (CHR ''-'')
           (filter slug_class (toLowerCase name)))))))"

section \<open>The data model\<close>

text \<open>
  The models of the schema, with the fields the components read or write (the image
  fields of a post and the coordinates of a location, which no function below reads, are
  left out). An id is a string; a datetime is modelled by the number
  \<open>new Date(s).getTime()\<close> reads from it (milliseconds since the epoch, the datetime being
  a valid one as the schema requires); a nullable integer is an \<^typ>\<open>int option\<close>.
\<close>

type_synonym ident = string
type_synonym timestamp = int

record location =
  loc_id :: ident
  loc_name :: string
  loc_slug :: string
  loc_description :: "string option"
  loc_state :: "string option"
  loc_country :: "string option"
  loc_isActive :: bool
  loc_createdAt :: timestamp

record channel =
  ch_id :: ident
  ch_locationId :: ident
  ch_name :: string
  ch_slug :: string
  ch_description :: "string option"
  ch_rules :: "string option"
  ch_color :: "string option"
  ch_isActive :: bool
  ch_createdAt :: timestamp
  ch_createdBy :: ident
  ch_memberCount :: "int option"
  ch_postCount :: "int option"

datatype post_type = PText | PImage | PLink

record post =
  p_id :: ident
  p_locationId :: ident
  p_channelId :: ident
  p_authorId :: ident
  p_title :: string
  p_content :: "string option"
  p_type :: post_type
  p_linkUrl :: "string option"
  p_linkTitle :: "string option"
  p_linkDescription :: "string option"
  p_isActive :: bool
  p_createdAt :: timestamp
  p_upvotes :: "int option"
  p_downvotes :: "int option"
  p_score :: "int option"
  p_commentCount :: "int option"

record comment =
  c_id :: ident
  c_postId :: ident
  c_authorId :: ident
  c_parentCommentId :: "ident option"
  c_content :: string
  c_isActive :: bool
  c_createdAt :: timestamp
  c_updatedAt :: timestamp
  c_upvotes :: "int option"
  c_downvotes :: "int option"
  c_score :: "int option"

datatype vote_type = Upvote | Downvote

record vote =
  v_id :: ident
  v_userId :: ident
  v_postId :: "ident option"
  v_commentId :: "ident option"
  v_type :: vote_type
  v_createdAt :: timestamp

record user_profile =
  u_id :: ident
  u_username :: string
  u_displayName :: "string option"

text \<open>
  The backend store: one list of rows per model, in the order \<open>list\<close> returns them.
\<close>

record store =
  locations :: "location list"
  channels :: "channel list"
  posts :: "post list"
  comments :: "comment list"
  votes :: "vote list"
  profiles :: "user_profile list"

definition empty_store :: store where
  "empty_store =
     \<lparr>locations = [], channels = [], posts = [], comments = [], votes = [], profiles = []\<rparr>"

text \<open>
  The messages the forms show through \<open>setError\<close>, one constructor per message:
  \<open>NameRequired\<close> is "City name is required" / "Channel name is required",
  \<open>DuplicateSlug\<close> is "A city with this name already exists..." / "A channel with this
  name already exists in this city...".
\<close>

datatype form_error =
    NameRequired
  | StateRequired
  | LocationNotFound
  | DuplicateSlug
  | TitleRequired
  | ContentRequired
  | LinkUrlRequired
  | ChannelRequired

text \<open>The store a handler leaves behind: the old one when it stopped with a message.\<close>

definition store_after :: "store \<Rightarrow> form_error + store \<Rightarrow> store" where
  "store_after st r = (case r of Inl e \<Rightarrow> st | Inr st' \<Rightarrow> st')"

text \<open>\<open>s.trim() || undefined\<close>: the empty string is falsy.\<close>

definition trim_or_undefined :: "string \<Rightarrow> string option" where
  "trim_or_undefined s = (if trim s = [] then None else Some (trim s))"

section \<open>Creating a city (\<open>CreateCity.tsx\<close>)\<close>

record city_form =
  cf_name :: string
  cf_state :: string
  cf_country :: string
  cf_description :: string

text \<open>
  \<open>handleSubmit\<close>: the two required-field checks, the slug, the look-up of a location
  with that slug, and \<open>Location.create\<close>. The id of the new row is given by the backend
  and the time by the clock; both are parameters.
\<close>

definition CreateCity_handleSubmit ::
    "city_form \<Rightarrow> ident \<Rightarrow> timestamp \<Rightarrow> store \<Rightarrow> form_error + store" where
  "CreateCity_handleSubmit formData new_id now st =
     (if trim (cf_name formData) = [] then Inl NameRequired
      else if trim (cf_state formData) = [] then Inl StateRequired
      else
        let slug = generateSlug (cf_name formData);
            existingLocation = filter (\<lambda>l. loc_slug l = slug) (locations st)
        in if length existingLocation > 0 then Inl DuplicateSlug
           else Inr (st\<lparr>locations := locations st @
                  [\<lparr>loc_id = new_id,
                    loc_name = trim (cf_name formData),
                    loc_slug = slug,
                    loc_description = trim_or_undefined (cf_description formData),
                    loc_state = Some (trim (cf_state formData)),
                    loc_country = Some (trim (cf_country formData)),
                    loc_isActive = True,
                    loc_createdAt = now\<rparr>]\<rparr>))"

section \<open>Creating a channel (\<open>CreateChannel.tsx\<close>)\<close>

record channel_form =
  chf_name :: string
  chf_description :: string
  chf_rules :: string
  chf_color :: string

text \<open>The \<open>Location\<close> interface of the component: what \<open>fetchLocation\<close> keeps.\<close>

record location_ref =
  lr_id :: ident
  lr_name :: string
  lr_slug :: string

definition fetchLocation :: "string \<Rightarrow> store \<Rightarrow> location_ref option" where
  "fetchLocation citySlug st =
     (case filter (\<lambda>l. loc_slug l = citySlug \<and> loc_isActive l) (locations st) of
        [] \<Rightarrow> None
      | l # _ \<Rightarrow> Some \<lparr>lr_id = loc_id l, lr_name = loc_name l, lr_slug = loc_slug l\<rparr>)"

definition CreateChannel_handleSubmit ::
    "channel_form \<Rightarrow> location_ref option \<Rightarrow> ident \<Rightarrow> ident \<Rightarrow> timestamp \<Rightarrow> store
       \<Rightarrow> form_error + store" where
  "CreateChannel_handleSubmit formData location userId new_id now st =
     (if trim (chf_name formData) = [] then Inl NameRequired
      else case location of
        None \<Rightarrow> Inl LocationNotFound
      | Some loc \<Rightarrow>
          let slug = generateSlug (chf_name formData);
              existingChannel =
                filter (\<lambda>c. ch_slug c = slug \<and> ch_locationId c = lr_id loc) (channels st)
          in if length existingChannel > 0 then Inl DuplicateSlug
             else Inr (st\<lparr>channels := channels st @
                    [\<lparr>ch_id = new_id,
                      ch_locationId = lr_id loc,
                      ch_name = trim (chf_name formData),
                      ch_slug = slug,
                      ch_description = trim_or_undefined (chf_description formData),
                      ch_rules = trim_or_undefined (chf_rules formData),
                      ch_color = Some (chf_color formData),
                      ch_isActive = True,
                      ch_createdAt = now,
                      ch_createdBy = userId,
                      ch_memberCount = Some 0,
                      ch_postCount = Some 0\<rparr>]\<rparr>))"

section \<open>Creating a post (\<open>CreatePost.tsx\<close>)\<close>

record post_form =
  pf_title :: string
  pf_content :: string
  pf_linkUrl :: string
  pf_linkTitle :: string
  pf_linkDescription :: string

text \<open>
  \<open>handleSubmit\<close>: the checks in the source's order, then one \<open>Post.create\<close>. Nothing
  else is written: no call on \<open>Channel\<close> occurs in the function. \<open>createdAt\<close> is not
  among the fields the form sends; the backend fills it, so it is a parameter like the id.
\<close>

definition CreatePost_handleSubmit ::
    "post_form \<Rightarrow> post_type \<Rightarrow> string \<Rightarrow> location_ref option \<Rightarrow> ident \<Rightarrow> ident \<Rightarrow> timestamp
       \<Rightarrow> store \<Rightarrow> form_error + store" where
  "CreatePost_handleSubmit formData postType selectedChannel locationData userId new_id now st =
     (if trim (pf_title formData) = [] then Inl TitleRequired
      else if postType = PText \<and> trim (pf_content formData) = [] then Inl ContentRequired
      else if postType = PLink \<and> trim (pf_linkUrl formData) = [] then Inl LinkUrlRequired
      else if selectedChannel = [] then Inl ChannelRequired
      else case locationData of
        None \<Rightarrow> Inl LocationNotFound
      | Some loc \<Rightarrow>
          Inr (st\<lparr>posts := posts st @
            [\<lparr>p_id = new_id,
              p_locationId = lr_id loc,
              p_channelId = selectedChannel,
              p_authorId = userId,
              p_title = trim (pf_title formData),
              p_content =
                (if postType = PText then Some (trim (pf_content formData)) else None),
              p_type = postType,
              p_linkUrl =
                (if postType = PLink then Some (trim (pf_linkUrl formData)) else None),
              p_linkTitle =
                (if postType = PLink then trim_or_undefined (pf_linkTitle formData) else None),
              p_linkDescription =
                (if postType = PLink then trim_or_undefined (pf_linkDescription formData)
                 else None),
              p_isActive = True,
              p_createdAt = now,
              p_upvotes = Some 0,
              p_downvotes = Some 0,
              p_score = Some 0,
              p_commentCount = Some 0\<rparr>]\<rparr>))"

section \<open>The feed and the comments (\<open>PostList.tsx\<close>)\<close>

text \<open>
  \<open>xs.sort(cmp)\<close>: the array is sorted by the comparator, an element \<open>a\<close> coming before
  \<open>b\<close> when \<open>cmp(a, b)\<close> is negative, and elements that compare equal keep their order
  (the sort is stable). Insertion from the right computes that order.
\<close>

fun insert_cmp :: "('a \<Rightarrow> 'a \<Rightarrow> int) \<Rightarrow> 'a \<Rightarrow> 'a list \<Rightarrow> 'a list" where
  "insert_cmp cmp x [] = [x]"
| "insert_cmp cmp x (y # ys) =
     (if cmp x y \<le> 0 then x # y # ys else y # insert_cmp cmp x ys)"

definition sort_cmp :: "('a \<Rightarrow> 'a \<Rightarrow> int) \<Rightarrow> 'a list \<Rightarrow> 'a list" where
  "sort_cmp cmp xs = foldr (insert_cmp cmp) xs []"

record author_view =
  av_id :: ident
  av_username :: string
  av_displayName :: "string option"

record channel_info =
  ci_id :: ident
  ci_name :: string
  ci_slug :: string

record post_view =
  pv_id :: ident
  pv_title :: string
  pv_content :: "string option"
  pv_type :: post_type
  pv_linkUrl :: "string option"
  pv_linkTitle :: "string option"
  pv_linkDescription :: "string option"
  pv_upvotes :: int
  pv_downvotes :: int
  pv_score :: int
  pv_commentCount :: int
  pv_createdAt :: timestamp
  pv_author :: author_view
  pv_channel :: "channel_info option"

record comment_view =
  cv_id :: ident
  cv_content :: string
  cv_upvotes :: int
  cv_downvotes :: int
  cv_score :: int
  cv_createdAt :: timestamp
  cv_author :: author_view

text \<open>\<open>n || 0\<close> on a nullable integer, \<open>s || undefined\<close> on a nullable string.\<close>

definition or_zero :: "int option \<Rightarrow> int" where
  "or_zero x = (case x of None \<Rightarrow> 0 | Some n \<Rightarrow> n)"

definition or_undefined :: "string option \<Rightarrow> string option" where
  "or_undefined x = (case x of None \<Rightarrow> None | Some s \<Rightarrow> if s = [] then None else Some s)"

text \<open>\<open>if (channelId)\<close> on an optional prop: undefined and the empty string are falsy.\<close>

definition truthy :: "string option \<Rightarrow> bool" where
  "truthy x = (case x of None \<Rightarrow> False | Some s \<Rightarrow> s \<noteq> [])"

definition author_of :: "store \<Rightarrow> ident \<Rightarrow> author_view" where
  "author_of st authorId =
     (let authorResponse = find (\<lambda>u. u_id u = authorId) (profiles st)
      in \<lparr>av_id = authorId,
          av_username =
            (case authorResponse of
               None \<Rightarrow> ''Unknown''
             | Some u \<Rightarrow> if u_username u = [] then ''Unknown'' else u_username u),
          av_displayName =
            (case authorResponse of None \<Rightarrow> None | Some u \<Rightarrow> or_undefined (u_displayName u))\<rparr>)"

definition list_posts :: "ident option \<Rightarrow> ident option \<Rightarrow> store \<Rightarrow> post list" where
  "list_posts locationId channelId st =
     filter (\<lambda>p. p_isActive p \<and>
                 (if truthy channelId then Some (p_channelId p) = channelId
                  else if truthy locationId then Some (p_locationId p) = locationId
                  else True))
            (posts st)"

definition post_view_of :: "ident option \<Rightarrow> store \<Rightarrow> post \<Rightarrow> post_view" where
  "post_view_of channelId st post =
     \<lparr>pv_id = p_id post,
      pv_title = p_title post,
      pv_content = or_undefined (p_content post),
      pv_type = p_type post,
      pv_linkUrl = or_undefined (p_linkUrl post),
      pv_linkTitle = or_undefined (p_linkTitle post),
      pv_linkDescription = or_undefined (p_linkDescription post),
      pv_upvotes = or_zero (p_upvotes post),
      pv_downvotes = or_zero (p_downvotes post),
      pv_score = or_zero (p_score post),
      pv_commentCount = int (length (filter (\<lambda>c. c_postId c = p_id post) (comments st))),
      pv_createdAt = p_createdAt post,
      pv_author = author_of st (p_authorId post),
      pv_channel =
        (if \<not> truthy channelId \<and> p_channelId post \<noteq> []
         then (case find (\<lambda>c. ch_id c = p_channelId post) (channels st) of
                 None \<Rightarrow> None
               | Some c \<Rightarrow> Some \<lparr>ci_id = ch_id c, ci_name = ch_name c, ci_slug = ch_slug c\<rparr>)
         else None)\<rparr>"

text \<open>The comparator of \<open>postData.sort\<close> in \<open>fetchPosts\<close>.\<close>

definition post_cmp :: "post_view \<Rightarrow> post_view \<Rightarrow> int" where
  "post_cmp a b =
     (if pv_score a \<noteq> pv_score b then pv_score b - pv_score a
      else pv_createdAt b - pv_createdAt a)"

definition fetchPosts :: "ident option \<Rightarrow> ident option \<Rightarrow> store \<Rightarrow> post_view list" where
  "fetchPosts locationId channelId st =
     sort_cmp post_cmp (map (post_view_of channelId st) (list_posts locationId channelId st))"

definition comment_view_of :: "store \<Rightarrow> comment \<Rightarrow> comment_view" where
  "comment_view_of st comment =
     \<lparr>cv_id = c_id comment,
      cv_content = c_content comment,
      cv_upvotes = or_zero (c_upvotes comment),
      cv_downvotes = or_zero (c_downvotes comment),
      cv_score = or_zero (c_score comment),
      cv_createdAt = c_createdAt comment,
      cv_author = author_of st (c_authorId comment)\<rparr>"

text \<open>The comparator of \<open>commentData.sort\<close> in \<open>fetchComments\<close>.\<close>

definition comment_cmp :: "comment_view \<Rightarrow> comment_view \<Rightarrow> int" where
  "comment_cmp a b =
     (if cv_score a \<noteq> cv_score b then cv_score b - cv_score a
      else cv_createdAt a - cv_createdAt b)"

definition list_comments :: "ident \<Rightarrow> store \<Rightarrow> comment list" where
  "list_comments postId st =
     filter (\<lambda>c. c_postId c = postId \<and> c_isActive c) (comments st)"

definition fetchComments :: "ident \<Rightarrow> store \<Rightarrow> comment_view list" where
  "fetchComments postId st =
     sort_cmp comment_cmp (map (comment_view_of st) (list_comments postId st))"

text \<open>
  \<open>handleCommentSubmit\<close>: nothing happens without a signed-in user or with a blank
  input; otherwise one \<open>Comment.create\<close> with \<open>postId\<close>, \<open>authorId\<close>, \<open>content\<close>,
  \<open>createdAt\<close> and \<open>updatedAt\<close>. The fields the call does not name take the schema's
  defaults; \<open>parentCommentId\<close> has none and stays unset. The refresh of the view that
  follows is \<open>fetchComments\<close>.
\<close>

definition handleCommentSubmit ::
    "ident option \<Rightarrow> string option \<Rightarrow> ident \<Rightarrow> ident \<Rightarrow> timestamp \<Rightarrow> timestamp \<Rightarrow> store \<Rightarrow> store"
  where
  "handleCommentSubmit user newComment postId new_id createdAt updatedAt st =
     (case user of
        None \<Rightarrow> st
      | Some userId \<Rightarrow>
          (case newComment of
             None \<Rightarrow> st
           | Some content \<Rightarrow>
               if trim content = [] then st
               else st\<lparr>comments := comments st @
                      [\<lparr>c_id = new_id,
                        c_postId = postId,
                        c_authorId = userId,
                        c_parentCommentId = None,
                        c_content = trim content,
                        c_isActive = True,
                        c_createdAt = createdAt,
                        c_updatedAt = updatedAt,
                        c_upvotes = Some 0,
                        c_downvotes = Some 0,
                        c_score = Some 0\<rparr>]\<rparr>))"

text \<open>A sequence of submissions, each with its own user, input, post, id and times.\<close>

record comment_request =
  cr_user :: "ident option"
  cr_newComment :: "string option"
  cr_postId :: ident
  cr_newId :: ident
  cr_createdAt :: timestamp
  cr_updatedAt :: timestamp

fun submit_comments :: "comment_request list \<Rightarrow> store \<Rightarrow> store" where
  "submit_comments [] st = st"
| "submit_comments (r # rs) st =
     submit_comments rs
       (handleCommentSubmit (cr_user r) (cr_newComment r) (cr_postId r) (cr_newId r)
          (cr_createdAt r) (cr_updatedAt r) st)"

subsection \<open>Parent chains\<close>

text \<open>
  The parent of a comment id in a set of comments, and whether the chain of parents that
  starts at an id ends within \<open>n\<close> steps. A chain that has not ended after one step more
  than there are comments revisits a comment: the set has a cycle.
\<close>

definition parent_of :: "comment list \<Rightarrow> ident \<Rightarrow> ident option" where
  "parent_of cs i =
     (case find (\<lambda>c. c_id c = i) cs of None \<Rightarrow> None | Some c \<Rightarrow> c_parentCommentId c)"

fun chain_ends :: "nat \<Rightarrow> comment list \<Rightarrow> ident \<Rightarrow> bool" where
  "chain_ends 0 cs i = False"
| "chain_ends (Suc n) cs i =
     (case parent_of cs i of None \<Rightarrow> True | Some p \<Rightarrow> chain_ends n cs p)"

definition parent_cycle :: "comment list \<Rightarrow> bool" where
  "parent_cycle cs = (\<exists>c\<in>set cs. \<not> chain_ends (Suc (length cs)) cs (c_id c))"

section \<open>The post count of a channel on the pages (\<open>CityView.tsx\<close>, \<open>ChannelView\<close>)\<close>

text \<open>
  \<open>fetchLocationAndChannel\<close> of the channel page: the first active location with the slug
  of the route, the first active channel of that location with the channel slug, and as
  the number of posts shown ("N posts") the stored field, \<open>channelData.postCount || 0\<close>.
  \<open>None\<close> stands for "City not found" and "Channel not found".
\<close>

definition ChannelView_postCount :: "string \<Rightarrow> string \<Rightarrow> store \<Rightarrow> int option" where
  "ChannelView_postCount citySlug channelSlug st =
     (case filter (\<lambda>l. loc_slug l = citySlug \<and> loc_isActive l) (locations st) of
        [] \<Rightarrow> None
      | locationData # _ \<Rightarrow>
          (case filter (\<lambda>c. ch_slug c = channelSlug \<and> ch_locationId c = loc_id locationData
                            \<and> ch_isActive c) (channels st) of
             [] \<Rightarrow> None
           | channelData # _ \<Rightarrow> Some (or_zero (ch_postCount channelData))))"

text \<open>
  \<open>fetchLocationAndChannels\<close> of the city page: the first active location with the slug of
  the route, its active channels, and for each channel as the number of posts shown the
  number of rows \<open>channel.posts()\<close> returns. The result pairs each channel id with that
  number.
\<close>

definition CityView_postCounts :: "string \<Rightarrow> store \<Rightarrow> (ident \<times> int) list option" where
  "CityView_postCounts citySlug st =
     (case filter (\<lambda>l. loc_slug l = citySlug \<and> loc_isActive l) (locations st) of
        [] \<Rightarrow> None
      | locationData # _ \<Rightarrow>
          Some (map (\<lambda>channel.
                  (ch_id channel,
                   int (length (filter (\<lambda>p. p_channelId p = ch_id channel) (posts st)))))
                (filter (\<lambda>c. ch_locationId c = loc_id locationData \<and> ch_isActive c)
                   (channels st))))"

section \<open>Casting a vote\<close>

text \<open>
  Modelled from the spec: the Score Aggregator of section 4.2. No function of the
  components writes a \<open>Vote\<close> row or the \<open>upvotes\<close>, \<open>downvotes\<close> and \<open>score\<close> of a
  post or comment; the schema declares the fields only. The definitions of this section
  follow the words of the specification.
\<close>

datatype vote_target = PostTarget ident | CommentTarget ident

datatype vote_error = TargetNotFound

text \<open>A vote row is on a target when it names that target and nothing else.\<close>

definition vote_on :: "vote_target \<Rightarrow> vote \<Rightarrow> bool" where
  "vote_on t v =
     (case t of
        PostTarget i \<Rightarrow> v_postId v = Some i \<and> v_commentId v = None
      | CommentTarget i \<Rightarrow> v_commentId v = Some i \<and> v_postId v = None)"

definition target_active :: "store \<Rightarrow> vote_target \<Rightarrow> bool" where
  "target_active st t =
     (case t of
        PostTarget i \<Rightarrow>
          (case find (\<lambda>p. p_id p = i) (posts st) of None \<Rightarrow> False | Some p \<Rightarrow> p_isActive p)
      | CommentTarget i \<Rightarrow>
          (case find (\<lambda>c. c_id c = i) (comments st) of None \<Rightarrow> False | Some c \<Rightarrow> c_isActive c))"

text \<open>
  Adding \<open>du\<close> to the up counter and \<open>dd\<close> to the down counter of a target, and recomputing
  its score from the two.
\<close>

definition bump_post :: "int \<Rightarrow> int \<Rightarrow> post \<Rightarrow> post" where
  "bump_post du dd p =
     p\<lparr>p_upvotes := Some (or_zero (p_upvotes p) + du),
       p_downvotes := Some (or_zero (p_downvotes p) + dd),
       p_score := Some ((or_zero (p_upvotes p) + du) - (or_zero (p_downvotes p) + dd))\<rparr>"

definition bump_comment :: "int \<Rightarrow> int \<Rightarrow> comment \<Rightarrow> comment" where
  "bump_comment du dd c =
     c\<lparr>c_upvotes := Some (or_zero (c_upvotes c) + du),
       c_downvotes := Some (or_zero (c_downvotes c) + dd),
       c_score := Some ((or_zero (c_upvotes c) + du) - (or_zero (c_downvotes c) + dd))\<rparr>"

definition bump_target :: "vote_target \<Rightarrow> int \<Rightarrow> int \<Rightarrow> store \<Rightarrow> store" where
  "bump_target t du dd st =
     (case t of
        PostTarget i \<Rightarrow>
          st\<lparr>posts := map (\<lambda>p. if p_id p = i then bump_post du dd p else p) (posts st)\<rparr>
      | CommentTarget i \<Rightarrow>
          st\<lparr>comments :=
               map (\<lambda>c. if c_id c = i then bump_comment du dd c else c) (comments st)\<rparr>)"

definition new_vote :: "ident \<Rightarrow> ident \<Rightarrow> vote_target \<Rightarrow> vote_type \<Rightarrow> timestamp \<Rightarrow> vote" where
  "new_vote new_id userId t ty now =
     \<lparr>v_id = new_id,
      v_userId = userId,
      v_postId = (case t of PostTarget i \<Rightarrow> Some i | CommentTarget i \<Rightarrow> None),
      v_commentId = (case t of PostTarget i \<Rightarrow> None | CommentTarget i \<Rightarrow> Some i),
      v_type = ty,
      v_createdAt = now\<rparr>"

text \<open>
  Modelled from the spec: \<open>castVote(userId, target, type)\<close> of the Score Aggregator, which
  no source file implements. "If no prior Vote exists from this user for this target,
  insert it and increment the corresponding counter and recompute score. If a prior Vote
  exists with a different type, flip it: decrement the old counter, increment the new one,
  recompute score, update the Vote row's type. [...] repeated identical votes [are]
  idempotent no-ops. [...] \<open>TargetNotFound\<close> if the Post/Comment does not exist or is
  inactive."
\<close>

definition castVote ::
    "ident \<Rightarrow> vote_target \<Rightarrow> vote_type \<Rightarrow> ident \<Rightarrow> timestamp \<Rightarrow> store \<Rightarrow> vote_error + store"
  where
  "castVote userId t ty new_id now st =
     (if \<not> target_active st t then Inl TargetNotFound
      else case find (\<lambda>v. v_userId v = userId \<and> vote_on t v) (votes st) of
        None \<Rightarrow>
          Inr (bump_target t (if ty = Upvote then 1 else 0) (if ty = Upvote then 0 else 1)
                 (st\<lparr>votes := votes st @ [new_vote new_id userId t ty now]\<rparr>))
      | Some prior \<Rightarrow>
          if v_type prior = ty then Inr st
          else
            Inr (bump_target t (if ty = Upvote then 1 else - 1) (if ty = Upvote then - 1 else 1)
                   (st\<lparr>votes := map (\<lambda>v. if v_userId v = userId \<and> vote_on t v
                                          then v\<lparr>v_type := ty\<rparr> else v) (votes st)\<rparr>)))"

text \<open>A sequence of votes by one user on one target, each with its type, row id and time.\<close>

fun cast_all ::
    "ident \<Rightarrow> vote_target \<Rightarrow> (vote_type \<times> ident \<times> timestamp) list \<Rightarrow> store
       \<Rightarrow> vote_error + store" where
  "cast_all userId t [] st = Inr st"
| "cast_all userId t ((ty, new_id, now) # rest) st =
     (case castVote userId t ty new_id now st of
        Inl e \<Rightarrow> Inl e
      | Inr st' \<Rightarrow> cast_all userId t rest st')"

text \<open>
  What is recorded for a target: the numbers of its upvote and downvote rows, the rows of
  one user on it, and the counters of the target's own row as the components read them.
\<close>

definition recorded :: "store \<Rightarrow> vote_target \<Rightarrow> vote_type \<Rightarrow> int" where
  "recorded st t ty = int (length (filter (\<lambda>v. vote_on t v \<and> v_type v = ty) (votes st)))"

definition rows_of :: "store \<Rightarrow> ident \<Rightarrow> vote_target \<Rightarrow> vote list" where
  "rows_of st userId t = filter (\<lambda>v. v_userId v = userId \<and> vote_on t v) (votes st)"

definition target_counters :: "store \<Rightarrow> vote_target \<Rightarrow> (int \<times> int \<times> int) list" where
  "target_counters st t =
     (case t of
        PostTarget i \<Rightarrow>
          map (\<lambda>p. (or_zero (p_upvotes p), or_zero (p_downvotes p), or_zero (p_score p)))
            (filter (\<lambda>p. p_id p = i) (posts st))
      | CommentTarget i \<Rightarrow>
          map (\<lambda>c. (or_zero (c_upvotes c), or_zero (c_downvotes c), or_zero (c_score c)))
            (filter (\<lambda>c. c_id c = i) (comments st)))"

definition counters_match :: "store \<Rightarrow> vote_target \<Rightarrow> bool" where
  "counters_match st t =
     list_all (\<lambda>(u, d, s). u = recorded st t Upvote \<and> d = recorded st t Downvote \<and> s = u - d)
       (target_counters st t)"

definition score_matches :: "store \<Rightarrow> vote_target \<Rightarrow> bool" where
  "score_matches st t =
     list_all (\<lambda>(u, d, s). s = recorded st t Upvote - recorded st t Downvote)
       (target_counters st t)"

section \<open>The orderings the claims speak of\<close>

text \<open>
  On pairs of a score and a creation time: score descending with ties broken newest
  first, which is the rule stated for the feed, and score descending with ties broken
  oldest first.
\<close>

definition feed_order :: "int \<times> timestamp \<Rightarrow> int \<times> timestamp \<Rightarrow> bool" where
  "feed_order a b = (fst a > fst b \<or> (fst a = fst b \<and> snd a \<ge> snd b))"

definition oldest_first_order :: "int \<times> timestamp \<Rightarrow> int \<times> timestamp \<Rightarrow> bool" where
  "oldest_first_order a b = (fst a > fst b \<or> (fst a = fst b \<and> snd a \<le> snd b))"

definition post_key :: "post_view \<Rightarrow> int \<times> timestamp" where
  "post_key a = (pv_score a, pv_createdAt a)"

definition comment_key :: "comment_view \<Rightarrow> int \<times> timestamp" where
  "comment_key a = (cv_score a, cv_createdAt a)"

text \<open>The slug before the final \<open>trim\<close>.\<close>

definition slug_body :: "string \<Rightarrow> string" where
  "slug_body name =
     replace_runs is_hyphen (CHR ''-'')
       (replace_runs is_space (CHR ''-'') (filter slug_class (toLowerCase name)))"

section \<open>Example data\<close>

definition ann_arbor_form :: city_form where
  "ann_arbor_form =
     \<lparr>cf_name = ''Ann Arbor'', cf_state = ''Michigan'', cf_country = ''United States'',
      cf_description = ''''\<rparr>"

definition punct_form :: city_form where
  "punct_form =
     \<lparr>cf_name = ''!!!'', cf_state = ''Michigan'', cf_country = ''United States'',
      cf_description = ''''\<rparr>"

definition spaced_form :: city_form where
  "spaced_form =
     \<lparr>cf_name = '' Ann Arbor '', cf_state = ''Michigan'', cf_country = ''United States'',
      cf_description = ''''\<rparr>"

definition nbsp_form :: city_form where
  "nbsp_form =
     \<lparr>cf_name = [CHR 0xA0], cf_state = ''Michigan'', cf_country = ''United States'',
      cf_description = ''''\<rparr>"

definition blank_form :: city_form where
  "blank_form =
     \<lparr>cf_name = ''  '', cf_state = ''Michigan'', cf_country = ''United States'',
      cf_description = ''''\<rparr>"

definition channel_named :: "string \<Rightarrow> channel_form" where
  "channel_named name =
     \<lparr>chf_name = name, chf_description = '''', chf_rules = '''', chf_color = ''#3b82f6''\<rparr>"

definition loc_ref :: "ident \<Rightarrow> location_ref" where
  "loc_ref i = \<lparr>lr_id = i, lr_name = ''Ann Arbor'', lr_slug = ''ann-arbor''\<rparr>"

text \<open>
  The city "Ann Arbor" created on the empty store, then the channel "Politics!!" under it.
\<close>

definition scenario_store :: store where
  "scenario_store =
     store_after empty_store
       (CreateChannel_handleSubmit (channel_named ''Politics!!'') (Some (loc_ref ''L1'')) ''u1''
          ''C1'' 2
          (store_after empty_store (CreateCity_handleSubmit ann_arbor_form ''L1'' 1 empty_store)))"

definition example_post :: "ident \<Rightarrow> ident \<Rightarrow> int \<Rightarrow> timestamp \<Rightarrow> post" where
  "example_post i ch s t =
     \<lparr>p_id = i, p_locationId = ''L1'', p_channelId = ch, p_authorId = ''u1'',
      p_title = ''Welcome!'', p_content = Some ''Hello everyone!'', p_type = PText,
      p_linkUrl = None, p_linkTitle = None, p_linkDescription = None, p_isActive = True,
      p_createdAt = t, p_upvotes = Some s, p_downvotes = Some 0, p_score = Some s,
      p_commentCount = Some 0\<rparr>"

definition example_comment :: "ident \<Rightarrow> ident option \<Rightarrow> int \<Rightarrow> timestamp \<Rightarrow> comment" where
  "example_comment i parent s t =
     \<lparr>c_id = i, c_postId = ''P1'', c_authorId = ''u1'', c_parentCommentId = parent,
      c_content = ''text'', c_isActive = True, c_createdAt = t, c_updatedAt = t,
      c_upvotes = Some s, c_downvotes = Some 0, c_score = Some s\<rparr>"

text \<open>Two posts of one channel with the score 5, \<open>P2\<close> created after \<open>P1\<close>.\<close>

definition feed_store :: store where
  "feed_store =
     empty_store\<lparr>posts := [example_post ''P1'' ''C1'' 5 100, example_post ''P2'' ''C1'' 5 200]\<rparr>"

text \<open>Two root comments with the score 3, \<open>b\<close> created after \<open>a\<close>.\<close>

definition tie_store :: store where
  "tie_store =
     empty_store\<lparr>comments := [example_comment ''a'' None 3 100, example_comment ''b'' None 3 200]\<rparr>"



text \<open>
  A store with one channel and no post, and the same after a post was created in the
  channel.
\<close>

definition counter_store :: store where
  "counter_store =
     store_after empty_store
       (CreateChannel_handleSubmit (channel_named ''general'') (Some (loc_ref ''L1'')) ''u1''
          ''C1'' 3 empty_store)"

definition welcome_form :: post_form where
  "welcome_form =
     \<lparr>pf_title = ''Welcome!'', pf_content = ''Hello everyone!'', pf_linkUrl = '''',
      pf_linkTitle = '''', pf_linkDescription = ''''\<rparr>"

definition after_post :: store where
  "after_post =
     store_after counter_store
       (CreatePost_handleSubmit welcome_form PText ''C1'' (Some (loc_ref ''L1'')) ''u1'' ''P1'' 200
          counter_store)"

text \<open>
  The store of the scenario after a post was created in its channel "Politics!!", and the
  same after a comment was added to that post.
\<close>

definition post_in_politics :: store where
  "post_in_politics =
     store_after scenario_store
       (CreatePost_handleSubmit welcome_form PText ''C1'' (Some (loc_ref ''L1'')) ''u1'' ''P1'' 200
          scenario_store)"

definition comment_in_politics :: store where
  "comment_in_politics =
     handleCommentSubmit (Some ''u1'') (Some ''Nice post'') ''P1'' ''K1'' 300 300 post_in_politics"

definition example_requests :: "comment_request list" where
  "example_requests =
     [\<lparr>cr_user = Some ''u1'', cr_newComment = Some ''first'', cr_postId = ''P1'',
       cr_newId = ''K1'', cr_createdAt = 300, cr_updatedAt = 300\<rparr>,
      \<lparr>cr_user = None, cr_newComment = Some ''ignored'', cr_postId = ''P1'',
       cr_newId = ''K2'', cr_createdAt = 301, cr_updatedAt = 301\<rparr>,
      \<lparr>cr_user = Some ''u2'', cr_newComment = Some '' second '', cr_postId = ''P1'',
       cr_newId = ''K3'', cr_createdAt = 302, cr_updatedAt = 302\<rparr>]"

text \<open>
  User \<open>A\<close> upvotes the post \<open>P1\<close> of the store above and then downvotes it.
\<close>

definition after_upvote :: "vote_error + store" where
  "after_upvote = cast_all ''A'' (PostTarget ''P1'') [(Upvote, ''V1'', 400)] after_post"

definition after_votes :: "vote_error + store" where
  "after_votes =
     cast_all ''A'' (PostTarget ''P1'') [(Upvote, ''V1'', 400), (Downvote, ''V2'', 401)] after_post"

section \<open>The slug\<close>

lemmas char_defs = is_lower_def is_upper_def is_digit_def is_space_def is_hyphen_def

lemmas slug_defs =
  generateSlug_def toLowerCase_def toLowerCase_char_def latin1_upper_def latin1_lower_def
  slug_class_def trim_def char_defs

lemma set_replace_runs: "set (replace_runs P r s) \<subseteq> {c \<in> set s. \<not> P c} \<union> {r}"
proof (induction P r s rule: replace_runs.induct)
  case (1 P r)
  then show ?case by simp
next
  case (2 P r c cs)
  have "set (dropWhile P cs) \<subseteq> set cs"
    by (auto dest: set_dropWhileD)
  with 2 show ?case by auto
qed

lemma replace_runs_head:
  "replace_runs P r (dropWhile P cs) = [] \<or>
   (\<exists>d ds. replace_runs P r (dropWhile P cs) = d # ds \<and> \<not> P d)"
proof (cases "dropWhile P cs")
  case Nil
  have "replace_runs P r (dropWhile P cs) = []"
    unfolding Nil by simp
  then show ?thesis by blast
next
  case (Cons d ds)
  then have "\<not> P d" by (metis hd_dropWhile list.sel(1) list.distinct(1))
  with Cons show ?thesis by simp
qed

lemma no_double_hyphen_replace_runs:
  "\<not> double_hyphen (replace_runs is_hyphen (CHR ''-'') s)"
proof (induction is_hyphen "CHR ''-''" s rule: replace_runs.induct)
  case 1
  then show ?case by simp
next
  case (2 c cs)
  show ?case
  proof (cases "is_hyphen c")
    case True
    from replace_runs_head [of is_hyphen "CHR ''-''" cs] 2(1) [OF True] True
    show ?thesis by auto
  next
    case False
    with 2(2) show ?thesis
      by (cases "replace_runs is_hyphen (CHR ''-'') cs") auto
  qed
qed

lemma trim_no_space: "\<forall>c\<in>set s. \<not> is_space c \<Longrightarrow> trim s = s"
proof -
  assume a: "\<forall>c\<in>set s. \<not> is_space c"
  have d: "\<And>xs. \<forall>c\<in>set xs. \<not> is_space c \<Longrightarrow> dropWhile is_space xs = xs"
    by (case_tac xs) auto
  from a show ?thesis by (simp add: trim_def d)
qed

lemma lower_not_others: "is_lower c \<Longrightarrow> \<not> is_space c \<and> \<not> is_upper c \<and> \<not> is_hyphen c"
  by (auto simp: char_defs)

lemma digit_not_others: "is_digit c \<Longrightarrow> \<not> is_space c \<and> \<not> is_upper c \<and> \<not> is_hyphen c"
  by (auto simp: char_defs)

lemma hyphen_not_others: "is_hyphen c \<Longrightarrow> \<not> is_space c \<and> \<not> is_upper c"
  by (auto simp: char_defs)

lemma slug_body_chars:
  assumes "c \<in> set (slug_body name)"
  shows "is_lower c \<or> is_digit c \<or> is_hyphen c"
proof -
  let ?a = "filter slug_class (toLowerCase name)"
  let ?b = "replace_runs is_space (CHR ''-'') ?a"
  from assms set_replace_runs [of is_hyphen "CHR ''-''" ?b]
  have "c \<in> set ?b \<or> c = CHR ''-''"
    by (auto simp: slug_body_def)
  then show ?thesis
  proof
    assume "c \<in> set ?b"
    with set_replace_runs [of is_space "CHR ''-''" ?a]
    have "(c \<in> set ?a \<and> \<not> is_space c) \<or> c = CHR ''-''" by auto
    then show ?thesis by (auto simp: slug_class_def is_hyphen_def)
  next
    assume "c = CHR ''-''"
    then show ?thesis by (simp add: is_hyphen_def)
  qed
qed

lemma generateSlug_body: "generateSlug name = slug_body name"
proof -
  have "\<forall>c\<in>set (slug_body name). \<not> is_space c"
    using slug_body_chars lower_not_others digit_not_others hyphen_not_others by blast
  then have "trim (slug_body name) = slug_body name" by (rule trim_no_space)
  then show ?thesis by (simp add: generateSlug_def slug_body_def)
qed

text \<open>
  C9. For every input string, the slug that \<open>generateSlug\<close> returns holds only lowercase
  ASCII letters, digits and hyphens: no white space, no uppercase letter, and no two
  hyphens in a row. It may begin or end with a hyphen: \<open>" Ann Arbor "\<close> gives
  \<open>"-ann-arbor-"\<close>.
\<close>

theorem generateSlug_alphabet:
  "(\<forall>c\<in>set (generateSlug name).
      (is_lower c \<or> is_digit c \<or> is_hyphen c) \<and> \<not> is_space c \<and> \<not> is_upper c)
   \<and> \<not> double_hyphen (generateSlug name)
   \<and> generateSlug '' Ann Arbor '' = ''-ann-arbor-''"
proof -
  have a: "\<forall>c\<in>set (generateSlug name).
      (is_lower c \<or> is_digit c \<or> is_hyphen c) \<and> \<not> is_space c \<and> \<not> is_upper c"
    using slug_body_chars lower_not_others digit_not_others hyphen_not_others
    unfolding generateSlug_body by blast
  have b: "\<not> double_hyphen (generateSlug name)"
    by (simp add: generateSlug_body slug_body_def no_double_hyphen_replace_runs)
  have c: "generateSlug '' Ann Arbor '' = ''-ann-arbor-''"
    by (simp add: slug_defs)
  from a b c show ?thesis by blast
qed

text \<open>The same at the name \<open>"New  York -- City!"\<close>, whose slug is \<open>"new-york-city"\<close>.\<close>

theorem generateSlug_alphabet_witness:
  "generateSlug ''New  York -- City!'' = ''new-york-city''
   \<and> list_all (\<lambda>c. (is_lower c \<or> is_digit c \<or> is_hyphen c) \<and> \<not> is_space c \<and> \<not> is_upper c)
        ''new-york-city''
   \<and> \<not> double_hyphen ''new-york-city''"
proof -
  have e: "generateSlug ''New  York -- City!'' = ''new-york-city''"
    by (simp add: slug_defs)
  from generateSlug_alphabet [of "''New  York -- City!''"] show ?thesis
    unfolding e by (simp add: list_all_iff)
qed

text \<open>
  C3. The claim has the slug end with the removal of leading and trailing hyphens. The
  last step of \<open>generateSlug\<close> is \<open>trim()\<close>, which removes white space, and by then every
  run of white space has become a hyphen: for the name \<open>" Ann Arbor "\<close> the code returns
  \<open>"-ann-arbor-"\<close>, where the transformation as claimed returns \<open>"ann-arbor"\<close>. The form
  stores the trimmed name, so with "Ann Arbor" in the store the request is not seen as a
  duplicate and a second location named "Ann Arbor" is created.
\<close>

theorem generateSlug_edge_hyphens:
  "generateSlug '' Ann Arbor '' = ''-ann-arbor-''
   \<and> spec_slug '' Ann Arbor '' = ''ann-arbor''
   \<and> map (\<lambda>l. (loc_name l, loc_slug l))
       (locations (store_after scenario_store
          (CreateCity_handleSubmit spaced_form ''L2'' 5 scenario_store)))
     = [(''Ann Arbor'', ''ann-arbor''), (''Ann Arbor'', ''-ann-arbor-'')]"
  by (simp add: slug_defs spec_slug_def scenario_store_def store_after_def empty_store_def
      CreateCity_handleSubmit_def CreateChannel_handleSubmit_def ann_arbor_form_def
      spaced_form_def channel_named_def loc_ref_def trim_or_undefined_def)

section \<open>Slug collisions\<close>

text \<open>
  C4. A creation request that has passed the required-field checks (the slug is
  generated only after them) and whose slug is the slug of an existing location, or of an
  existing channel of the same location, fails with the duplicate message and leaves the
  store as it was; a channel whose slug is taken only under other locations is created,
  with that slug, under its own location.
\<close>

theorem duplicate_slug_rejected:
  "(trim (cf_name cform) \<noteq> [] \<and> trim (cf_state cform) \<noteq> []
      \<and> (\<exists>l\<in>set (locations st). loc_slug l = generateSlug (cf_name cform))
    \<longrightarrow> CreateCity_handleSubmit cform new_id now st = Inl DuplicateSlug
        \<and> store_after st (CreateCity_handleSubmit cform new_id now st) = st)
   \<and> (trim (chf_name chform) \<noteq> []
      \<and> (\<exists>c\<in>set (channels st).
            ch_slug c = generateSlug (chf_name chform) \<and> ch_locationId c = lr_id loc)
    \<longrightarrow> CreateChannel_handleSubmit chform (Some loc) userId new_id now st = Inl DuplicateSlug
        \<and> store_after st (CreateChannel_handleSubmit chform (Some loc) userId new_id now st) = st)
   \<and> (trim (chf_name chform) \<noteq> []
      \<and> (\<forall>c\<in>set (channels st).
            ch_slug c = generateSlug (chf_name chform) \<longrightarrow> ch_locationId c \<noteq> lr_id loc)
    \<longrightarrow> (\<exists>new. CreateChannel_handleSubmit chform (Some loc) userId new_id now st =
                  Inr (st\<lparr>channels := channels st @ [new]\<rparr>)
              \<and> ch_slug new = generateSlug (chf_name chform)
              \<and> ch_locationId new = lr_id loc))"
  by (auto simp: CreateCity_handleSubmit_def CreateChannel_handleSubmit_def store_after_def
      filter_empty_conv Let_def)

text \<open>
  The scenario of the specification: with "Ann Arbor" and its channel "Politics!!" in the
  store, a channel "Politics" under the same location and a second city "Ann Arbor" are
  rejected as duplicates, and a channel "Politics" under another location is created with
  the slug \<open>"politics"\<close>.
\<close>

theorem duplicate_slug_rejected_witness:
  "CreateChannel_handleSubmit (channel_named ''Politics'') (Some (loc_ref ''L1'')) ''u1'' ''C2'' 3
      scenario_store = Inl DuplicateSlug
   \<and> map (\<lambda>c. (ch_locationId c, ch_slug c))
       (channels (store_after scenario_store
          (CreateChannel_handleSubmit (channel_named ''Politics'') (Some (loc_ref ''L2'')) ''u1''
             ''C2'' 3 scenario_store))) = [(''L1'', ''politics''), (''L2'', ''politics'')]
   \<and> CreateCity_handleSubmit ann_arbor_form ''L2'' 3 scenario_store = Inl DuplicateSlug"
proof -
  have s: "generateSlug ''Politics'' = ''politics''" "generateSlug ''Ann Arbor'' = ''ann-arbor''"
      "trim ''Politics'' = ''Politics''" "trim ''Ann Arbor'' = ''Ann Arbor''"
      "trim ''Michigan'' = ''Michigan''"
    by (simp_all add: slug_defs)
  have c: "channels scenario_store \<noteq> [] \<and>
      map (\<lambda>c. (ch_locationId c, ch_slug c)) (channels scenario_store) = [(''L1'', ''politics'')]"
    and l: "map loc_slug (locations scenario_store) = [''ann-arbor'']"
    by (simp_all add: scenario_store_def store_after_def empty_store_def CreateCity_handleSubmit_def
      CreateChannel_handleSubmit_def ann_arbor_form_def channel_named_def loc_ref_def slug_defs trim_or_undefined_def)
  from c obtain ch where ch: "channels scenario_store = [ch]" "ch_locationId ch = ''L1''"
      "ch_slug ch = ''politics''"
    by (cases "channels scenario_store") auto
  from l obtain lo where lo: "locations scenario_store = [lo]" "loc_slug lo = ''ann-arbor''"
    by (cases "locations scenario_store") auto
  from duplicate_slug_rejected [where cform = ann_arbor_form and st = scenario_store
      and chform = "channel_named ''Politics''" and loc = "loc_ref ''L1''" and new_id = "''L2''"
      and now = 3 and userId = "''u1''"]
    duplicate_slug_rejected [where cform = ann_arbor_form and st = scenario_store
      and chform = "channel_named ''Politics''" and loc = "loc_ref ''L2''" and new_id = "''C2''"
      and now = 3 and userId = "''u1''"]
    duplicate_slug_rejected [where cform = ann_arbor_form and st = scenario_store
      and chform = "channel_named ''Politics''" and loc = "loc_ref ''L1''" and new_id = "''C2''"
      and now = 3 and userId = "''u1''"]
  show ?thesis
    by (auto simp: s ch lo channel_named_def ann_arbor_form_def loc_ref_def store_after_def)
qed

section \<open>Sorting by a comparator\<close>

lemma mset_insert_cmp: "mset (insert_cmp cmp x ys) = add_mset x (mset ys)"
  by (induction ys) auto

lemma mset_sort_cmp: "mset (sort_cmp cmp xs) = mset xs"
  by (induction xs) (auto simp: sort_cmp_def mset_insert_cmp)

lemma set_sort_cmp: "set (sort_cmp cmp xs) = set xs"
  by (metis mset_sort_cmp set_mset_mset)


lemma set_insert_cmp: "set (insert_cmp cmp x ys) = insert x (set ys)"
  by (induction ys) auto

lemma sorted_insert_cmp:
  assumes trans: "\<And>a b c. cmp a b \<le> 0 \<Longrightarrow> cmp b c \<le> 0 \<Longrightarrow> cmp a c \<le> 0"
    and total: "\<And>a b. \<not> cmp a b \<le> 0 \<Longrightarrow> cmp b a \<le> 0"
    and srt: "sorted_wrt (\<lambda>a b. cmp a b \<le> 0) ys"
  shows "sorted_wrt (\<lambda>a b. cmp a b \<le> 0) (insert_cmp cmp x ys)"
  using srt
proof (induction ys)
  case Nil
  then show ?case by simp
next
  case (Cons y ys)
  show ?case
  proof (cases "cmp x y \<le> 0")
    case True
    with Cons.prems show ?thesis by (auto intro: trans)
  next
    case False
    then have "cmp y x \<le> 0" by (rule total)
    with False Cons show ?thesis by (auto simp: set_insert_cmp)
  qed
qed

lemma sorted_sort_cmp:
  assumes trans: "\<And>a b c. cmp a b \<le> 0 \<Longrightarrow> cmp b c \<le> 0 \<Longrightarrow> cmp a c \<le> 0"
    and total: "\<And>a b. \<not> cmp a b \<le> 0 \<Longrightarrow> cmp b a \<le> 0"
  shows "sorted_wrt (\<lambda>a b. cmp a b \<le> 0) (sort_cmp cmp xs)"
proof (induction xs)
  case Nil
  then show ?case by (simp add: sort_cmp_def)
next
  case (Cons x xs)
  have "sort_cmp cmp (x # xs) = insert_cmp cmp x (sort_cmp cmp xs)"
    by (simp add: sort_cmp_def)
  with Cons sorted_insert_cmp [of cmp, OF trans total] show ?case by simp
qed

lemma post_cmp_order: "post_cmp a b \<le> 0 \<longleftrightarrow> feed_order (post_key a) (post_key b)"
  by (auto simp: post_cmp_def feed_order_def post_key_def)

lemma comment_cmp_order:
  "comment_cmp a b \<le> 0 \<longleftrightarrow> oldest_first_order (comment_key a) (comment_key b)"
  by (auto simp: comment_cmp_def oldest_first_order_def comment_key_def)

lemma sorted_post_cmp:
  "sorted_wrt (\<lambda>a b. feed_order (post_key a) (post_key b)) (sort_cmp post_cmp xs)"
proof -
  have "sorted_wrt (\<lambda>a b. post_cmp a b \<le> 0) (sort_cmp post_cmp xs)"
    by (rule sorted_sort_cmp) (auto simp: post_cmp_def split: if_splits)
  then show ?thesis by (simp add: post_cmp_order)
qed

lemma sorted_comment_cmp:
  "sorted_wrt (\<lambda>a b. oldest_first_order (comment_key a) (comment_key b))
     (sort_cmp comment_cmp xs)"
proof -
  have "sorted_wrt (\<lambda>a b. comment_cmp a b \<le> 0) (sort_cmp comment_cmp xs)"
    by (rule sorted_sort_cmp) (auto simp: comment_cmp_def split: if_splits)
  then show ?thesis by (simp add: comment_cmp_order)
qed

lemmas example_defs = empty_store_def example_post_def example_comment_def

lemmas view_defs =
  fetchPosts_def fetchComments_def list_posts_def list_comments_def post_view_of_def
  comment_view_of_def author_of_def truthy_def or_zero_def or_undefined_def sort_cmp_def
  post_cmp_def comment_cmp_def

section \<open>The feed\<close>

text \<open>
  C2. The list \<open>fetchPosts\<close> returns holds the views of the listed posts, each once, in
  the order of the feed: score descending, and among equal scores the later \<open>createdAt\<close>
  first. In particular a post never stands behind a post of the same score that was
  created earlier.
\<close>

theorem fetchPosts_order:
  "sorted_wrt (\<lambda>a b. feed_order (post_key a) (post_key b)) (fetchPosts locationId channelId st)
   \<and> mset (fetchPosts locationId channelId st) =
       mset (map (post_view_of channelId st) (list_posts locationId channelId st))
   \<and> (\<forall>i j. i < length (fetchPosts locationId channelId st)
          \<and> j < length (fetchPosts locationId channelId st)
          \<and> pv_score (fetchPosts locationId channelId st ! i) =
              pv_score (fetchPosts locationId channelId st ! j)
          \<and> pv_createdAt (fetchPosts locationId channelId st ! i) >
              pv_createdAt (fetchPosts locationId channelId st ! j)
        \<longrightarrow> i < j)"
proof -
  let ?r = "fetchPosts locationId channelId st"
  have s: "sorted_wrt (\<lambda>a b. feed_order (post_key a) (post_key b)) ?r"
    by (simp add: fetchPosts_def sorted_post_cmp)
  have m: "mset ?r = mset (map (post_view_of channelId st) (list_posts locationId channelId st))"
    by (simp add: fetchPosts_def mset_sort_cmp)
  have "i < j" if h: "i < length ?r" "j < length ?r" "pv_score (?r ! i) = pv_score (?r ! j)"
      "pv_createdAt (?r ! i) > pv_createdAt (?r ! j)" for i j
  proof (rule ccontr)
    assume "\<not> i < j"
    with h(4) have "j < i" by (cases "i = j") auto
    with s h(1) have "feed_order (post_key (?r ! j)) (post_key (?r ! i))"
      by (simp add: sorted_wrt_iff_nth_less)
    with h(3,4) show False by (simp add: feed_order_def post_key_def)
  qed
  with s m show ?thesis by blast
qed

text \<open>
  The scenario of the specification: \<open>P1\<close> and \<open>P2\<close> with the score 5, \<open>P2\<close> created
  later; the feed of their channel returns \<open>P2\<close> before \<open>P1\<close>.
\<close>

theorem fetchPosts_order_witness:
  "map (\<lambda>v. (pv_id v, pv_score v, pv_createdAt v)) (fetchPosts None (Some ''C1'') feed_store) =
     [(''P2'', 5, 200), (''P1'', 5, 100)]
   \<and> sorted_wrt (\<lambda>a b. feed_order (post_key a) (post_key b))
       (fetchPosts None (Some ''C1'') feed_store)"
proof -
  have e: "map (\<lambda>v. (pv_id v, pv_score v, pv_createdAt v))
      (fetchPosts None (Some ''C1'') feed_store) = [(''P2'', 5, 200), (''P1'', 5, 100)]"
    by (simp add: view_defs example_defs feed_store_def)
  with fetchPosts_order [of None "Some ''C1''" feed_store] show ?thesis by blast
qed

section \<open>The comments\<close>

text \<open>
  C5. The claim has \<open>fetchComments\<close> break ties like the feed, newest first. Its
  comparator subtracts the other way round (\<open>a.createdAt - b.createdAt\<close>): of two
  comments with the score 3 the older one comes first, so the list is not in the order of
  the feed.
\<close>

theorem fetchComments_newest_first_counterexample:
  "\<not> sorted_wrt (\<lambda>a b. feed_order (comment_key a) (comment_key b))
       (fetchComments ''P1'' tie_store)"
  by (simp add: view_defs example_defs tie_store_def feed_order_def comment_key_def)

text \<open>
  C5, as amended. The comments \<open>fetchComments\<close> returns are sorted by score descending,
  with ties broken by \<open>createdAt\<close> ascending: oldest first among equal scores.
\<close>

theorem fetchComments_order:
  "sorted_wrt (\<lambda>a b. oldest_first_order (comment_key a) (comment_key b))
     (fetchComments postId st)"
  by (simp add: fetchComments_def sorted_comment_cmp)

text \<open>The two tied comments come back in the order of their creation.\<close>

theorem fetchComments_order_witness:
  "map (\<lambda>v. (cv_id v, cv_score v, cv_createdAt v)) (fetchComments ''P1'' tie_store) =
     [(''a'', 3, 100), (''b'', 3, 200)]
   \<and> sorted_wrt (\<lambda>a b. oldest_first_order (comment_key a) (comment_key b))
       (fetchComments ''P1'' tie_store)"
proof -
  have e: "map (\<lambda>v. (cv_id v, cv_score v, cv_createdAt v)) (fetchComments ''P1'' tie_store) =
     [(''a'', 3, 100), (''b'', 3, 200)]"
    by (simp add: view_defs example_defs tie_store_def)
  with fetchComments_order [of "''P1''" tie_store] show ?thesis by blast
qed





section \<open>Names that give an empty slug\<close>

text \<open>
  C6. The claim has a name with an empty slug rejected with an invalid-name error. The
  forms check the name only for being blank; the slug itself is never checked. The name
  \<open>"!!!"\<close> is not blank, its slug is empty, and on the empty store \<open>handleSubmit\<close> creates
  the location with the slug \<open>""\<close>.
\<close>

theorem empty_slug_created_counterexample:
  "generateSlug ''!!!'' = []
   \<and> CreateCity_handleSubmit punct_form ''L1'' 1 empty_store =
       Inr (empty_store\<lparr>locations :=
         [\<lparr>loc_id = ''L1'', loc_name = ''!!!'', loc_slug = [], loc_description = None,
           loc_state = Some ''Michigan'', loc_country = Some ''United States'',
           loc_isActive = True, loc_createdAt = 1\<rparr>]\<rparr>)"
  by (simp add: CreateCity_handleSubmit_def punct_form_def empty_store_def slug_defs
      trim_or_undefined_def)

text \<open>
  C6, as amended. A creation request is rejected for its name exactly when the name is
  empty or white space only: the answer of either form is the name-required message if
  and only if the trimmed name is empty, and then nothing is created. A name that is not
  blank and whose slug is empty is not rejected for that: when the other required fields
  are there and the empty slug is not yet taken in the scope, the entity is created, with
  the empty slug.
\<close>

theorem blank_name_rejected:
  "(CreateCity_handleSubmit cform new_id now st = Inl NameRequired
      \<longleftrightarrow> trim (cf_name cform) = [])
   \<and> (CreateChannel_handleSubmit chform location userId new_id now st = Inl NameRequired
      \<longleftrightarrow> trim (chf_name chform) = [])
   \<and> (trim (cf_name cform) = []
      \<longrightarrow> store_after st (CreateCity_handleSubmit cform new_id now st) = st)
   \<and> (trim (chf_name chform) = []
      \<longrightarrow> store_after st (CreateChannel_handleSubmit chform location userId new_id now st) = st)
   \<and> (trim (cf_name cform) \<noteq> [] \<and> trim (cf_state cform) \<noteq> []
        \<and> generateSlug (cf_name cform) = [] \<and> (\<forall>l\<in>set (locations st). loc_slug l \<noteq> [])
      \<longrightarrow> (\<exists>new. CreateCity_handleSubmit cform new_id now st =
                    Inr (st\<lparr>locations := locations st @ [new]\<rparr>) \<and> loc_slug new = []))
   \<and> (trim (chf_name chform) \<noteq> [] \<and> generateSlug (chf_name chform) = []
        \<and> (\<forall>c\<in>set (channels st). ch_slug c = [] \<longrightarrow> ch_locationId c \<noteq> lr_id loc)
      \<longrightarrow> (\<exists>new. CreateChannel_handleSubmit chform (Some loc) userId new_id now st =
                    Inr (st\<lparr>channels := channels st @ [new]\<rparr>) \<and> ch_slug new = []))"
proof -
  have city: "CreateCity_handleSubmit cform new_id now st = Inl NameRequired
      \<longleftrightarrow> trim (cf_name cform) = []"
    by (simp add: CreateCity_handleSubmit_def Let_def)
  have channel: "CreateChannel_handleSubmit chform location userId new_id now st
        = Inl NameRequired \<longleftrightarrow> trim (chf_name chform) = []"
    by (cases location) (simp_all add: CreateChannel_handleSubmit_def Let_def)
  have kept: "trim (cf_name cform) = []
      \<longrightarrow> store_after st (CreateCity_handleSubmit cform new_id now st) = st"
    "trim (chf_name chform) = []
      \<longrightarrow> store_after st (CreateChannel_handleSubmit chform location userId new_id now st) = st"
    by (simp_all add: CreateCity_handleSubmit_def CreateChannel_handleSubmit_def
        store_after_def)
  have made: "trim (cf_name cform) \<noteq> [] \<and> trim (cf_state cform) \<noteq> []
        \<and> generateSlug (cf_name cform) = [] \<and> (\<forall>l\<in>set (locations st). loc_slug l \<noteq> [])
      \<longrightarrow> (\<exists>new. CreateCity_handleSubmit cform new_id now st =
                    Inr (st\<lparr>locations := locations st @ [new]\<rparr>) \<and> loc_slug new = [])"
    "trim (chf_name chform) \<noteq> [] \<and> generateSlug (chf_name chform) = []
        \<and> (\<forall>c\<in>set (channels st). ch_slug c = [] \<longrightarrow> ch_locationId c \<noteq> lr_id loc)
      \<longrightarrow> (\<exists>new. CreateChannel_handleSubmit chform (Some loc) userId new_id now st =
                    Inr (st\<lparr>channels := channels st @ [new]\<rparr>) \<and> ch_slug new = [])"
    by (auto simp: CreateCity_handleSubmit_def CreateChannel_handleSubmit_def
        filter_empty_conv Let_def)
  from city channel kept made show ?thesis by (intro conjI)
qed

text \<open>
  On the store of the scenario: the names of two spaces and of one no-break space are
  rejected as blank, "Ann Arbor" is rejected but not for its name, and the names \<open>"!!!"\<close>
  and \<open>"?!"\<close> add a location and a channel with the empty slug.
\<close>

theorem blank_name_rejected_witness:
  "CreateCity_handleSubmit blank_form ''L2'' 5 scenario_store = Inl NameRequired
   \<and> CreateCity_handleSubmit nbsp_form ''L2'' 5 scenario_store = Inl NameRequired
   \<and> CreateChannel_handleSubmit (channel_named ''  '') (Some (loc_ref ''L1'')) ''u1'' ''C2'' 5
       scenario_store = Inl NameRequired
   \<and> CreateCity_handleSubmit ann_arbor_form ''L2'' 5 scenario_store \<noteq> Inl NameRequired
   \<and> map loc_slug (locations (store_after scenario_store
        (CreateCity_handleSubmit punct_form ''L2'' 5 scenario_store))) = [''ann-arbor'', []]
   \<and> map ch_slug (channels (store_after scenario_store
        (CreateChannel_handleSubmit (channel_named ''?!'') (Some (loc_ref ''L1'')) ''u1'' ''C2'' 5
           scenario_store))) = [''politics'', []]"
proof -
  have s: "trim ''  '' = []" "trim [CHR 0xA0] = []" "trim ''!!!'' = ''!!!''"
      "trim ''?!'' = ''?!''" "trim ''Michigan'' = ''Michigan''"
      "trim ''Ann Arbor'' = ''Ann Arbor''" "generateSlug ''!!!'' = []"
      "generateSlug ''?!'' = []"
    by (simp_all add: slug_defs)
  have c: "map ch_slug (channels scenario_store) = [''politics'']"
    and l: "map loc_slug (locations scenario_store) = [''ann-arbor'']"
    by (simp_all add: scenario_store_def store_after_def empty_store_def
        CreateCity_handleSubmit_def CreateChannel_handleSubmit_def ann_arbor_form_def
        channel_named_def loc_ref_def slug_defs trim_or_undefined_def)
  from c obtain ch where ch: "channels scenario_store = [ch]" "ch_slug ch = ''politics''"
    by (cases "channels scenario_store") auto
  from l obtain lo where lo: "locations scenario_store = [lo]" "loc_slug lo = ''ann-arbor''"
    by (cases "locations scenario_store") auto
  from blank_name_rejected [where cform = blank_form and chform = "channel_named ''  ''"
      and st = scenario_store and new_id = "''L2''" and now = 5
      and location = "Some (loc_ref ''L1'')" and userId = "''u1''" and loc = "loc_ref ''L1''"]
    blank_name_rejected [where cform = nbsp_form and chform = "channel_named ''  ''"
      and st = scenario_store and new_id = "''C2''" and now = 5
      and location = "Some (loc_ref ''L1'')" and userId = "''u1''" and loc = "loc_ref ''L1''"]
    blank_name_rejected [where cform = nbsp_form and chform = "channel_named ''  ''"
      and st = scenario_store and new_id = "''L2''" and now = 5
      and location = "Some (loc_ref ''L1'')" and userId = "''u1''" and loc = "loc_ref ''L1''"]
    blank_name_rejected [where cform = ann_arbor_form and chform = "channel_named ''?!''"
      and st = scenario_store and new_id = "''L2''" and now = 5
      and location = "Some (loc_ref ''L1'')" and userId = "''u1''" and loc = "loc_ref ''L1''"]
    blank_name_rejected [where cform = punct_form and chform = "channel_named ''?!''"
      and st = scenario_store and new_id = "''L2''" and now = 5
      and location = "Some (loc_ref ''L1'')" and userId = "''u1''" and loc = "loc_ref ''L1''"]
    blank_name_rejected [where cform = punct_form and chform = "channel_named ''?!''"
      and st = scenario_store and new_id = "''C2''" and now = 5
      and location = "Some (loc_ref ''L1'')" and userId = "''u1''" and loc = "loc_ref ''L1''"]
  show ?thesis
    by (auto simp: s ch lo blank_form_def nbsp_form_def punct_form_def ann_arbor_form_def
        channel_named_def store_after_def)
qed

section \<open>Counters\<close>

lemmas counter_defs =
  counter_store_def after_post_def welcome_form_def channel_named_def loc_ref_def
  store_after_def empty_store_def CreateChannel_handleSubmit_def CreatePost_handleSubmit_def
  trim_or_undefined_def

text \<open>
  No creation writes a counter: creating a post leaves every channel row as it was, and
  creating a comment leaves every post row as it was.
\<close>

lemma creations_write_no_counter:
  "channels (store_after st
      (CreatePost_handleSubmit formData postType selectedChannel locationData userId new_id now st))
     = channels st
   \<and> posts (handleCommentSubmit user newComment postId new_id createdAt updatedAt st) = posts st"
  by (simp add: CreatePost_handleSubmit_def handleCommentSubmit_def store_after_def
      split: option.splits)

text \<open>
  C7. The claim has \<open>postCount\<close> equal the number of the channel's posts after every post
  creation, and \<open>commentCount\<close> the number of the post's comments after every comment
  creation. The code writes both counters once, as 0, and never again. In the store of
  the scenario the channel "Politics!!" has no post, and the channel page and the city
  page both show 0 posts. After a post is created in it, the channel has one post and
  the stored \<open>postCount\<close> is still 0: the city page, which counts the rows, shows 1 post,
  and the channel page, which reads the stored field, shows 0 posts. After a comment is
  added to that post, the post has one comment and its stored \<open>commentCount\<close> is still 0.
\<close>

theorem postCount_not_maintained:
  "ChannelView_postCount ''ann-arbor'' ''politics'' scenario_store = Some 0
   \<and> CityView_postCounts ''ann-arbor'' scenario_store = Some [(''C1'', 0)]
   \<and> map ch_postCount (channels post_in_politics) = [Some 0]
   \<and> length (filter (\<lambda>p. p_channelId p = ''C1'') (posts post_in_politics)) = 1
   \<and> ChannelView_postCount ''ann-arbor'' ''politics'' post_in_politics = Some 0
   \<and> CityView_postCounts ''ann-arbor'' post_in_politics = Some [(''C1'', 1)]
   \<and> map p_commentCount (posts comment_in_politics) = [Some 0]
   \<and> length (filter (\<lambda>c. c_postId c = ''P1'') (comments comment_in_politics)) = 1"
proof -
  have st: "scenario_store =
      \<lparr>locations =
         [\<lparr>loc_id = ''L1'', loc_name = ''Ann Arbor'', loc_slug = ''ann-arbor'',
           loc_description = None, loc_state = Some ''Michigan'',
           loc_country = Some ''United States'', loc_isActive = True, loc_createdAt = 1\<rparr>],
       channels =
         [\<lparr>ch_id = ''C1'', ch_locationId = ''L1'', ch_name = ''Politics!!'',
           ch_slug = ''politics'', ch_description = None, ch_rules = None,
           ch_color = Some ''#3b82f6'', ch_isActive = True, ch_createdAt = 2,
           ch_createdBy = ''u1'', ch_memberCount = Some 0, ch_postCount = Some 0\<rparr>],
       posts = [], comments = [], votes = [], profiles = []\<rparr>"
    by (simp add: scenario_store_def store_after_def empty_store_def
        CreateCity_handleSubmit_def CreateChannel_handleSubmit_def ann_arbor_form_def
        channel_named_def loc_ref_def slug_defs trim_or_undefined_def)
  have t: "trim ''Welcome!'' = ''Welcome!''" "trim ''Hello everyone!'' = ''Hello everyone!''"
      "trim ''Nice post'' = ''Nice post''"
    by (simp_all add: trim_def is_space_def)
  show ?thesis
    unfolding post_in_politics_def comment_in_politics_def st
    by (simp add: ChannelView_postCount_def CityView_postCounts_def CreatePost_handleSubmit_def
        handleCommentSubmit_def welcome_form_def loc_ref_def store_after_def or_zero_def t)
qed

section \<open>Comments are created as roots\<close>

lemma handleCommentSubmit_appends:
  "\<exists>new. comments (handleCommentSubmit user newComment postId new_id createdAt updatedAt st)
            = comments st @ new
        \<and> list_all (\<lambda>c. c_parentCommentId c = None) new"
  by (cases user; cases newComment) (auto simp: handleCommentSubmit_def)

lemma submit_comments_appends:
  "\<exists>new. comments (submit_comments reqs st) = comments st @ new
        \<and> list_all (\<lambda>c. c_parentCommentId c = None) new"
proof (induction reqs arbitrary: st)
  case Nil
  then show ?case by simp
next
  case (Cons r rs)
  let ?st = "handleCommentSubmit (cr_user r) (cr_newComment r) (cr_postId r) (cr_newId r)
          (cr_createdAt r) (cr_updatedAt r) st"
  from handleCommentSubmit_appends obtain n1 where
    n1: "comments ?st = comments st @ n1" "list_all (\<lambda>c. c_parentCommentId c = None) n1"
    by blast
  from Cons.IH [of ?st] obtain n2 where
    n2: "comments (submit_comments rs ?st) = comments ?st @ n2"
      "list_all (\<lambda>c. c_parentCommentId c = None) n2"
    by blast
  from n1 n2 have "comments (submit_comments (r # rs) st) = comments st @ (n1 @ n2)
      \<and> list_all (\<lambda>c. c_parentCommentId c = None) (n1 @ n2)"
    by simp
  then show ?case by blast
qed

lemma roots_chain_ends:
  "list_all (\<lambda>c. c_parentCommentId c = None) cs \<Longrightarrow> chain_ends (Suc n) cs i"
proof -
  assume a: "list_all (\<lambda>c. c_parentCommentId c = None) cs"
  have "parent_of cs i = None"
  proof (cases "find (\<lambda>c. c_id c = i) cs")
    case None
    then show ?thesis by (simp add: parent_of_def)
  next
    case (Some c)
    then have "c \<in> set cs" by (auto simp: find_Some_iff)
    with a have "c_parentCommentId c = None" by (simp add: list_all_iff)
    with Some show ?thesis by (simp add: parent_of_def)
  qed
  then show ?thesis by simp
qed

lemma roots_no_cycle:
  "list_all (\<lambda>c. c_parentCommentId c = None) cs \<Longrightarrow> \<not> parent_cycle cs"
  unfolding parent_cycle_def using roots_chain_ends by blast

text \<open>
  C10. Every comment that a sequence of \<open>handleCommentSubmit\<close> calls adds to the store has
  no \<open>parentCommentId\<close>. So when the store held no parent link before, it holds none
  afterwards, and its comments have no parent cycle.
\<close>

theorem submitted_comments_are_roots:
  "(\<exists>new. comments (submit_comments reqs st) = comments st @ new
         \<and> list_all (\<lambda>c. c_parentCommentId c = None) new)
   \<and> (list_all (\<lambda>c. c_parentCommentId c = None) (comments st) \<longrightarrow>
        list_all (\<lambda>c. c_parentCommentId c = None) (comments (submit_comments reqs st))
        \<and> \<not> parent_cycle (comments (submit_comments reqs st)))"
proof -
  from submit_comments_appends obtain new where
    n: "comments (submit_comments reqs st) = comments st @ new"
      "list_all (\<lambda>c. c_parentCommentId c = None) new"
    by blast
  have "list_all (\<lambda>c. c_parentCommentId c = None) (comments (submit_comments reqs st))
        \<and> \<not> parent_cycle (comments (submit_comments reqs st))"
    if "list_all (\<lambda>c. c_parentCommentId c = None) (comments st)"
  proof -
    from that n have "list_all (\<lambda>c. c_parentCommentId c = None)
        (comments (submit_comments reqs st))"
      by simp
    then show ?thesis by (simp add: roots_no_cycle)
  qed
  with n show ?thesis by blast
qed

text \<open>
  Three submissions, one of them without a signed-in user, on a store without comments:
  two root comments are added and there is no cycle.
\<close>

theorem submitted_comments_are_roots_witness:
  "map (\<lambda>c. (c_id c, c_content c, c_parentCommentId c))
      (comments (submit_comments example_requests after_post))
     = [(''K1'', ''first'', None), (''K3'', ''second'', None)]
   \<and> \<not> parent_cycle (comments (submit_comments example_requests after_post))"
proof -
  have e: "comments after_post = []"
    by (simp add: counter_defs slug_defs)
  have f: "map (\<lambda>c. (c_id c, c_content c, c_parentCommentId c))
      (comments (submit_comments example_requests after_post))
     = [(''K1'', ''first'', None), (''K3'', ''second'', None)]"
    by (simp add: example_requests_def handleCommentSubmit_def e slug_defs)
  from submitted_comments_are_roots [of example_requests after_post] e f
  show ?thesis by simp
qed

section \<open>Votes\<close>

lemma find_filter_conv:
  "find P xs = (case filter P xs of [] \<Rightarrow> None | x # _ \<Rightarrow> Some x)"
  by (induction xs) auto

lemma vote_on_new_vote: "vote_on t (new_vote new_id userId t ty now)"
  by (cases t) (simp_all add: vote_on_def new_vote_def)

lemma vote_on_retype: "vote_on t (v\<lparr>v_type := ty\<rparr>) = vote_on t v"
  by (cases t) (simp_all add: vote_on_def)

lemma votes_bump_target: "votes (bump_target t du dd st) = votes st"
  by (cases t) (simp_all add: bump_target_def)

lemma recorded_bump_target: "recorded (bump_target t du dd st) t' ty = recorded st t' ty"
  by (simp add: recorded_def votes_bump_target)

lemma rows_of_bump_target: "rows_of (bump_target t du dd st) userId t' = rows_of st userId t'"
  by (simp add: rows_of_def votes_bump_target)

lemma find_bumped_post:
  "find (\<lambda>p. p_id p = i) (map (\<lambda>p. if p_id p = i then bump_post du dd p else p) ps) =
   map_option (bump_post du dd) (find (\<lambda>p. p_id p = i) ps)"
  by (induction ps) (auto simp: bump_post_def)

lemma find_bumped_comment:
  "find (\<lambda>c. c_id c = i) (map (\<lambda>c. if c_id c = i then bump_comment du dd c else c) cs) =
   map_option (bump_comment du dd) (find (\<lambda>c. c_id c = i) cs)"
  by (induction cs) (auto simp: bump_comment_def)

lemma target_active_bump_target:
  "target_active (bump_target t du dd st) t = target_active st t"
proof (cases t)
  case (PostTarget i)
  then show ?thesis
    by (cases "find (\<lambda>p. p_id p = i) (posts st)")
       (simp_all add: target_active_def bump_target_def find_bumped_post bump_post_def)
next
  case (CommentTarget i)
  then show ?thesis
    by (cases "find (\<lambda>c. c_id c = i) (comments st)")
       (simp_all add: target_active_def bump_target_def find_bumped_comment bump_comment_def)
qed

lemma target_active_votes: "target_active (st\<lparr>votes := vs\<rparr>) t = target_active st t"
  by (cases t) (simp_all add: target_active_def)

lemma target_counters_votes: "target_counters (st\<lparr>votes := vs\<rparr>) t = target_counters st t"
  by (cases t) (simp_all add: target_counters_def)

lemma counters_bumped_posts:
  "map (\<lambda>p. (or_zero (p_upvotes p), or_zero (p_downvotes p), or_zero (p_score p)))
     (filter (\<lambda>p. p_id p = i) (map (\<lambda>p. if p_id p = i then bump_post du dd p else p) ps)) =
   map (\<lambda>(u, d, s). (u + du, d + dd, (u + du) - (d + dd)))
     (map (\<lambda>p. (or_zero (p_upvotes p), or_zero (p_downvotes p), or_zero (p_score p)))
        (filter (\<lambda>p. p_id p = i) ps))"
  by (induction ps) (auto simp: bump_post_def or_zero_def)

lemma counters_bumped_comments:
  "map (\<lambda>c. (or_zero (c_upvotes c), or_zero (c_downvotes c), or_zero (c_score c)))
     (filter (\<lambda>c. c_id c = i) (map (\<lambda>c. if c_id c = i then bump_comment du dd c else c) cs)) =
   map (\<lambda>(u, d, s). (u + du, d + dd, (u + du) - (d + dd)))
     (map (\<lambda>c. (or_zero (c_upvotes c), or_zero (c_downvotes c), or_zero (c_score c)))
        (filter (\<lambda>c. c_id c = i) cs))"
  by (induction cs) (auto simp: bump_comment_def or_zero_def)

lemma target_counters_bump_target:
  "target_counters (bump_target t du dd st) t =
   map (\<lambda>(u, d, s). (u + du, d + dd, (u + du) - (d + dd))) (target_counters st t)"
  by (cases t)
     (simp_all add: target_counters_def bump_target_def counters_bumped_posts
        counters_bumped_comments)

text \<open>The counters follow when the recorded numbers move by the same amounts.\<close>

lemma counters_match_bump:
  assumes "counters_match st t"
    and "recorded st' t Upvote = recorded st t Upvote + du"
    and "recorded st' t Downvote = recorded st t Downvote + dd"
    and "target_counters st' t =
           map (\<lambda>(u, d, s). (u + du, d + dd, (u + du) - (d + dd))) (target_counters st t)"
  shows "counters_match st' t"
  using assms by (auto simp: counters_match_def list_all_iff)

lemma counters_match_score: "counters_match st t \<Longrightarrow> score_matches st t"
  by (auto simp: counters_match_def score_matches_def list_all_iff)

text \<open>Retyping the rows of one user on the target, all of which have the other type.\<close>

lemma retype_counts:
  assumes "\<forall>v\<in>set vs. v_userId v = userId \<and> vote_on t v \<longrightarrow> v_type v \<noteq> ty"
  shows "int (length (filter (\<lambda>v. vote_on t v \<and> v_type v = ty)
            (map (\<lambda>v. if v_userId v = userId \<and> vote_on t v then v\<lparr>v_type := ty\<rparr> else v) vs)))
         = int (length (filter (\<lambda>v. vote_on t v \<and> v_type v = ty) vs))
           + int (length (filter (\<lambda>v. v_userId v = userId \<and> vote_on t v) vs))"
    and "ty' \<noteq> ty \<Longrightarrow>
         int (length (filter (\<lambda>v. vote_on t v \<and> v_type v = ty')
            (map (\<lambda>v. if v_userId v = userId \<and> vote_on t v then v\<lparr>v_type := ty\<rparr> else v) vs)))
         = int (length (filter (\<lambda>v. vote_on t v \<and> v_type v = ty') vs))
           - int (length (filter (\<lambda>v. v_userId v = userId \<and> vote_on t v) vs))"
  using assms
proof (induction vs)
  case Nil
  { case 1 show ?case by simp }
  { case 2 show ?case by simp }
next
  case (Cons v vs)
  { case 1
    from Cons.IH(1) 1 show ?case by (auto simp: vote_on_retype) }
  { case 2
    have "v_userId v = userId \<and> vote_on t v \<Longrightarrow> v_type v = ty'"
      using 2 by (cases "v_type v"; cases ty; cases ty') auto
    with Cons.IH(2) 2 show ?case by (auto simp: vote_on_retype) }
qed

lemma recorded_retype:
  assumes "\<forall>v\<in>set (votes st). v_userId v = userId \<and> vote_on t v \<longrightarrow> v_type v \<noteq> ty"
  shows "recorded (st\<lparr>votes := map (\<lambda>v. if v_userId v = userId \<and> vote_on t v
                                          then v\<lparr>v_type := ty\<rparr> else v) (votes st)\<rparr>) t ty
         = recorded st t ty + int (length (rows_of st userId t))"
    and "ty' \<noteq> ty \<Longrightarrow>
         recorded (st\<lparr>votes := map (\<lambda>v. if v_userId v = userId \<and> vote_on t v
                                          then v\<lparr>v_type := ty\<rparr> else v) (votes st)\<rparr>) t ty'
         = recorded st t ty' - int (length (rows_of st userId t))"
proof -
  have v: "\<And>vs. votes (st\<lparr>votes := vs\<rparr>) = vs" by simp
  show "recorded (st\<lparr>votes := map (\<lambda>v. if v_userId v = userId \<and> vote_on t v
                                          then v\<lparr>v_type := ty\<rparr> else v) (votes st)\<rparr>) t ty
         = recorded st t ty + int (length (rows_of st userId t))"
    unfolding recorded_def rows_of_def v by (rule retype_counts(1) [OF assms])
  show "recorded (st\<lparr>votes := map (\<lambda>v. if v_userId v = userId \<and> vote_on t v
                                          then v\<lparr>v_type := ty\<rparr> else v) (votes st)\<rparr>) t ty'
         = recorded st t ty' - int (length (rows_of st userId t))" if "ty' \<noteq> ty"
    unfolding recorded_def rows_of_def v by (rule retype_counts(2) [OF assms that])
qed

lemma rows_retype:
  "filter (\<lambda>v. v_userId v = userId \<and> vote_on t v)
     (map (\<lambda>v. if v_userId v = userId \<and> vote_on t v then v\<lparr>v_type := ty\<rparr> else v) vs) =
   map (\<lambda>v. v\<lparr>v_type := ty\<rparr>) (filter (\<lambda>v. v_userId v = userId \<and> vote_on t v) vs)"
  by (induction vs) (auto simp: vote_on_retype)

lemma recorded_new_vote:
  "recorded (st\<lparr>votes := votes st @ [new_vote new_id userId t ty now]\<rparr>) t ty' =
   recorded st t ty' + (if ty' = ty then 1 else 0)"
proof -
  have "v_type (new_vote new_id userId t ty now) = ty"
    by (simp add: new_vote_def)
  then show ?thesis
    by (auto simp: recorded_def vote_on_new_vote)
qed

lemma rows_of_new_vote:
  "rows_of (st\<lparr>votes := votes st @ [new_vote new_id userId t ty now]\<rparr>) userId t =
   rows_of st userId t @ [new_vote new_id userId t ty now]"
proof -
  have "v_userId (new_vote new_id userId t ty now) = userId"
    by (simp add: new_vote_def)
  then show ?thesis
    by (simp add: rows_of_def vote_on_new_vote)
qed

lemma rows_of_retype:
  "rows_of (st\<lparr>votes := map (\<lambda>v. if v_userId v = userId \<and> vote_on t v
                                          then v\<lparr>v_type := ty\<rparr> else v) (votes st)\<rparr>) userId t =
   map (\<lambda>v. v\<lparr>v_type := ty\<rparr>) (rows_of st userId t)"
proof -
  have v: "\<And>vs. votes (st\<lparr>votes := vs\<rparr>) = vs" by simp
  show ?thesis unfolding rows_of_def v by (rule rows_retype)
qed

lemma castVote_first:
  assumes a: "target_active st t" and c: "counters_match st t"
    and r: "rows_of st userId t = []"
  shows "\<exists>st'. castVote userId t ty new_id now st = Inr st' \<and> target_active st' t
           \<and> counters_match st' t \<and> map v_type (rows_of st' userId t) = [ty]"
proof -
  let ?nv = "new_vote new_id userId t ty now"
  let ?du = "if ty = Upvote then 1 else (0::int)"
  let ?dd = "if ty = Upvote then 0 else (1::int)"
  let ?st = "bump_target t ?du ?dd (st\<lparr>votes := votes st @ [?nv]\<rparr>)"
  from r have f: "find (\<lambda>v. v_userId v = userId \<and> vote_on t v) (votes st) = None"
    by (simp add: find_filter_conv rows_of_def)
  with a have e: "castVote userId t ty new_id now st = Inr ?st"
    by (simp add: castVote_def)
  have nv: "v_userId ?nv = userId" "v_type ?nv = ty"
    by (simp_all add: new_vote_def)
  have act: "target_active ?st t"
    using a by (simp add: target_active_bump_target target_active_votes)
  have up: "recorded ?st t Upvote = recorded st t Upvote + ?du"
    by (cases ty) (simp_all only: recorded_bump_target recorded_new_vote, simp_all)
  have down: "recorded ?st t Downvote = recorded st t Downvote + ?dd"
    by (cases ty) (simp_all only: recorded_bump_target recorded_new_vote, simp_all)
  have tc: "target_counters ?st t =
      map (\<lambda>(u, d, s). (u + ?du, d + ?dd, (u + ?du) - (d + ?dd))) (target_counters st t)"
    by (simp only: target_counters_bump_target target_counters_votes)
  have cm: "counters_match ?st t"
    by (rule counters_match_bump [OF c up down tc])
  have "rows_of ?st userId t = [?nv]"
    using r by (simp only: rows_of_bump_target rows_of_new_vote) simp
  then have rows: "map v_type (rows_of ?st userId t) = [ty]"
    by (simp add: nv)
  show ?thesis
    by (intro exI [of _ ?st] conjI) (fact e act cm rows)+
qed

lemma castVote_again:
  assumes a: "target_active st t" and c: "counters_match st t"
    and r: "rows_of st userId t = [prior]"
  shows "\<exists>st'. castVote userId t ty new_id now st = Inr st' \<and> target_active st' t
           \<and> counters_match st' t \<and> map v_type (rows_of st' userId t) = [ty]"
proof (cases "v_type prior = ty")
  case True
  from r have "find (\<lambda>v. v_userId v = userId \<and> vote_on t v) (votes st) = Some prior"
    by (simp add: find_filter_conv rows_of_def)
  with a True have "castVote userId t ty new_id now st = Inr st"
    by (simp add: castVote_def)
  with a c r True show ?thesis by simp
next
  case False
  let ?flip = "\<lambda>v. if v_userId v = userId \<and> vote_on t v then v\<lparr>v_type := ty\<rparr> else v"
  let ?du = "if ty = Upvote then 1 else (- 1::int)"
  let ?dd = "if ty = Upvote then - 1 else (1::int)"
  let ?st = "bump_target t ?du ?dd (st\<lparr>votes := map ?flip (votes st)\<rparr>)"
  from r have f: "find (\<lambda>v. v_userId v = userId \<and> vote_on t v) (votes st) = Some prior"
    by (simp add: find_filter_conv rows_of_def)
  with a False have e: "castVote userId t ty new_id now st = Inr ?st"
    by (simp add: castVote_def)
  have others: "\<forall>v\<in>set (votes st). v_userId v = userId \<and> vote_on t v \<longrightarrow> v_type v \<noteq> ty"
  proof (intro ballI impI)
    fix v assume "v \<in> set (votes st)" "v_userId v = userId \<and> vote_on t v"
    then have "v \<in> set (rows_of st userId t)" by (simp add: rows_of_def)
    with r False show "v_type v \<noteq> ty" by simp
  qed
  have one: "int (length (rows_of st userId t)) = 1"
    using r by simp
  have act: "target_active ?st t"
    using a by (simp add: target_active_bump_target target_active_votes)
  have up: "recorded ?st t Upvote = recorded st t Upvote + ?du"
  proof (cases ty)
    case Upvote
    with recorded_retype(1) [OF others] one show ?thesis
      by (simp only: recorded_bump_target) simp
  next
    case Downvote
    with recorded_retype(2) [OF others, of Upvote] one show ?thesis
      by (simp only: recorded_bump_target) simp
  qed
  have down: "recorded ?st t Downvote = recorded st t Downvote + ?dd"
  proof (cases ty)
    case Upvote
    with recorded_retype(2) [OF others, of Downvote] one show ?thesis
      by (simp only: recorded_bump_target) simp
  next
    case Downvote
    with recorded_retype(1) [OF others] one show ?thesis
      by (simp only: recorded_bump_target) simp
  qed
  have tc: "target_counters ?st t =
      map (\<lambda>(u, d, s). (u + ?du, d + ?dd, (u + ?du) - (d + ?dd))) (target_counters st t)"
    by (simp only: target_counters_bump_target target_counters_votes)
  have cm: "counters_match ?st t"
    by (rule counters_match_bump [OF c up down tc])
  have "rows_of ?st userId t = map (\<lambda>v. v\<lparr>v_type := ty\<rparr>) (rows_of st userId t)"
    by (simp only: rows_of_bump_target rows_of_retype)
  with r have rows: "map v_type (rows_of ?st userId t) = [ty]" by simp
  show ?thesis
    by (intro exI [of _ ?st] conjI) (fact e act cm rows)+
qed

lemma castVote_step:
  assumes a: "target_active st t" and c: "counters_match st t"
    and r: "length (rows_of st userId t) \<le> 1"
  shows "\<exists>st'. castVote userId t ty new_id now st = Inr st' \<and> target_active st' t
           \<and> counters_match st' t \<and> map v_type (rows_of st' userId t) = [ty]"
proof (cases "rows_of st userId t")
  case Nil
  with a c show ?thesis by (rule castVote_first)
next
  case (Cons prior rest)
  with r have "rows_of st userId t = [prior]" by simp
  with a c show ?thesis by (rule castVote_again)
qed

lemma cast_all_keeps:
  assumes "target_active st t" and "counters_match st t"
    and "length (rows_of st userId t) \<le> 1"
  shows "\<exists>st'. cast_all userId t casts st = Inr st' \<and> target_active st' t
           \<and> counters_match st' t \<and> length (rows_of st' userId t) \<le> 1
           \<and> (casts \<noteq> [] \<longrightarrow> map v_type (rows_of st' userId t) = [fst (last casts)])"
  using assms
proof (induction casts arbitrary: st)
  case Nil
  then show ?case by simp
next
  case (Cons x xs)
  obtain ty new_id now where x: "x = (ty, new_id, now)" by (cases x)
  from castVote_step [OF Cons.prems, of ty new_id now] obtain s1 where
    "castVote userId t ty new_id now st = Inr s1 \<and> target_active s1 t
      \<and> counters_match s1 t \<and> map v_type (rows_of s1 userId t) = [ty]" ..
  then have s1: "castVote userId t ty new_id now st = Inr s1" "target_active s1 t"
      "counters_match s1 t" "map v_type (rows_of s1 userId t) = [ty]"
    by simp_all
  from s1(4) have len: "length (rows_of s1 userId t) \<le> 1"
    by (metis length_map length_Cons list.size(3) One_nat_def order_refl)
  show ?case
  proof (cases xs)
    case Nil
    with x s1 len show ?thesis by simp
  next
    case (Cons y ys)
    from Cons.IH [OF s1(2,3) len] obtain s2 where
      "cast_all userId t xs s1 = Inr s2 \<and> target_active s2 t \<and> counters_match s2 t
       \<and> length (rows_of s2 userId t) \<le> 1
       \<and> (xs \<noteq> [] \<longrightarrow> map v_type (rows_of s2 userId t) = [fst (last xs)])" ..
    with x s1(1) Cons show ?thesis by simp
  qed
qed

text \<open>
  C1. Take a target that exists and is active, whose counters agree with the vote rows
  recorded for it, and a user with at most one vote row on it. After every non-empty
  sequence of \<open>castVote\<close> operations by that user on that target, every operation has
  succeeded, the target is still there, its score equals the number of recorded upvotes
  minus the number of recorded downvotes, and exactly one vote row exists for the user
  and the target; its type is the type cast last.
\<close>

theorem castVote_score_invariant:
  "target_active st t \<and> counters_match st t \<and> length (rows_of st userId t) \<le> 1
     \<and> casts \<noteq> []
   \<longrightarrow> (\<exists>st'. cast_all userId t casts st = Inr st'
          \<and> target_active st' t
          \<and> score_matches st' t
          \<and> length (rows_of st' userId t) = 1
          \<and> map v_type (rows_of st' userId t) = [fst (last casts)])"
proof (intro impI)
  assume h: "target_active st t \<and> counters_match st t \<and> length (rows_of st userId t) \<le> 1
     \<and> casts \<noteq> []"
  then have h3: "target_active st t" "counters_match st t" "length (rows_of st userId t) \<le> 1"
    and ne: "casts \<noteq> []"
    by simp_all
  from cast_all_keeps [OF h3, of casts] obtain st' where
    "cast_all userId t casts st = Inr st' \<and> target_active st' t
      \<and> counters_match st' t \<and> length (rows_of st' userId t) \<le> 1
      \<and> (casts \<noteq> [] \<longrightarrow> map v_type (rows_of st' userId t) = [fst (last casts)])" ..
  with ne have s: "cast_all userId t casts st = Inr st'" "counters_match st' t"
      "map v_type (rows_of st' userId t) = [fst (last casts)]" "target_active st' t"
    by simp_all
  from s(3) have "length (rows_of st' userId t) = 1"
    by (metis length_map length_Cons list.size(3) One_nat_def)
  then have l: "length (rows_of st' userId t) = 1" .
  from s(2) have m: "score_matches st' t" by (rule counters_match_score)
  show "\<exists>st'. cast_all userId t casts st = Inr st'
          \<and> target_active st' t
          \<and> score_matches st' t
          \<and> length (rows_of st' userId t) = 1
          \<and> map v_type (rows_of st' userId t) = [fst (last casts)]"
    by (intro exI [of _ st'] conjI) (fact s m l)+
qed

lemmas vote_defs =
  after_upvote_def after_votes_def castVote_def target_active_def vote_on_def new_vote_def
  bump_target_def bump_post_def rows_of_def recorded_def target_counters_def
  counters_match_def score_matches_def or_zero_def

text \<open>
  The scenario of the specification: user \<open>A\<close> upvotes the post (upvotes 1, score 1) and
  then downvotes it (upvotes 0, downvotes 1, score -1); there is one vote row throughout,
  updated in place.
\<close>

theorem castVote_score_invariant_witness:
  "map (\<lambda>p. (p_upvotes p, p_downvotes p, p_score p)) (posts (projr after_upvote)) =
     [(Some 1, Some 0, Some 1)]
   \<and> map (\<lambda>p. (p_upvotes p, p_downvotes p, p_score p)) (posts (projr after_votes)) =
     [(Some 0, Some 1, Some (- 1))]
   \<and> map (\<lambda>v. (v_id v, v_type v)) (votes (projr after_votes)) = [(''V1'', Downvote)]
   \<and> score_matches (projr after_votes) (PostTarget ''P1'')
   \<and> length (rows_of (projr after_votes) ''A'' (PostTarget ''P1'')) = 1"
proof -
  have p: "map (\<lambda>p. (p_id p, p_isActive p, p_upvotes p, p_downvotes p, p_score p))
      (posts after_post) = [(''P1'', True, Some 0, Some 0, Some 0)]"
    "votes after_post = []"
    by (simp_all add: counter_defs slug_defs)
  from p(1) obtain post where post: "posts after_post = [post]" "p_id post = ''P1''"
      "p_isActive post" "p_upvotes post = Some 0" "p_downvotes post = Some 0"
      "p_score post = Some 0"
    by (cases "posts after_post") auto
  have h: "target_active after_post (PostTarget ''P1'')"
      "counters_match after_post (PostTarget ''P1'')"
      "length (rows_of after_post ''A'' (PostTarget ''P1'')) \<le> 1"
    by (simp_all add: target_active_def counters_match_def target_counters_def recorded_def
        rows_of_def or_zero_def post p(2))
  have u: "map (\<lambda>p. (p_upvotes p, p_downvotes p, p_score p)) (posts (projr after_upvote)) =
     [(Some 1, Some 0, Some 1)]"
    by (simp add: vote_defs post p(2))
  have v: "map (\<lambda>p. (p_upvotes p, p_downvotes p, p_score p)) (posts (projr after_votes)) =
     [(Some 0, Some 1, Some (- 1))]"
    "map (\<lambda>v. (v_id v, v_type v)) (votes (projr after_votes)) = [(''V1'', Downvote)]"
    by (simp_all add: vote_defs post p(2))
  from castVote_score_invariant [of after_post "PostTarget ''P1''" "''A''"
      "[(Upvote, ''V1'', 400), (Downvote, ''V2'', 401)]"] h
  have "score_matches (projr after_votes) (PostTarget ''P1'')
      \<and> length (rows_of (projr after_votes) ''A'' (PostTarget ''P1'')) = 1"
    by (auto simp: after_votes_def)
  with u v show ?thesis by blast
qed

end
